theory Spec2Isabelle
  imports Complex_Main "HOL-Library.Multiset"
begin

section \<open>Strings\<close>

text \<open>
  A JavaScript string is modelled as the HOL string of its code units, for strings whose
  code units are below 256 (ASCII and Latin-1). On these the two built-ins the code calls
  are written out in full. \<^verbatim>\<open>String.prototype.trim\<close> removes tab, line feed, vertical tab,
  form feed, carriage return, space and the no-break space 0xA0 from both ends.
  \<^verbatim>\<open>String.prototype.toLowerCase\<close> folds A to Z and the Latin-1 capitals 0xC0 to 0xDE
  (0xD7, the multiplication sign, is no letter).
\<close>

definition isSpace :: "char \<Rightarrow> bool" where
  "isSpace c =
     (c \<in> set [CHR '' '', CHR 0x09, CHR 0x0A, CHR 0x0B, CHR 0x0C, CHR 0x0D, CHR 0xA0])"

definition trim :: "string \<Rightarrow> string" where
  "trim s = rev (dropWhile isSpace (rev (dropWhile isSpace s)))"

definition lowerChar :: "char \<Rightarrow> char" where
  "lowerChar c =
     (let n = (of_char c :: nat)
      in if (65 \<le> n \<and> n \<le> 90) \<or> (192 \<le> n \<and> n \<le> 222 \<and> n \<noteq> 215)
         then char_of (n + 32) else c)"

definition toLowerCase :: "string \<Rightarrow> string" where
  "toLowerCase s = map lowerChar s"

section \<open>Client: per-category search history\<close>

text \<open>
  \<^verbatim>\<open>useState<{[categoryId: string]: string[]}>({})\<close>: the history is an object from
  category ids to arrays of queries, initially empty.
\<close>

type_synonym search_history = "string \<rightharpoonup> string list"

text \<open>\<^verbatim>\<open>prev[selectedCategory.id] || []\<close>\<close>

definition categoryHistory :: "search_history \<Rightarrow> string \<Rightarrow> string list" where
  "categoryHistory prev cid = (case prev cid of None \<Rightarrow> [] | Some h \<Rightarrow> h)"

text \<open>
  The state update inside \<^verbatim>\<open>handleManualSearch\<close>:
  \<^verbatim>\<open>[query, ...categoryHistory.filter(q => q !== query)].slice(0, 6)\<close> stored under the
  selected category.
\<close>

definition addToHistory :: "search_history \<Rightarrow> string \<Rightarrow> string \<Rightarrow> search_history" where
  "addToHistory prev cid query =
     prev(cid \<mapsto> take 6 (query # filter (\<lambda>q. q \<noteq> query) (categoryHistory prev cid)))"

text \<open>
  What \<^verbatim>\<open>performSearch\<close> hands back to \<^verbatim>\<open>handleManualSearch\<close>: a result, \<^verbatim>\<open>null\<close> when the
  request was aborted, or an exception.
\<close>

datatype search_outcome = SearchOk | SearchAborted | SearchFailed

text \<open>
  \<^verbatim>\<open>handleManualSearch\<close> as far as the history is concerned: a query that is blank after
  trimming returns at once, and the history is touched only when results came back.
\<close>

definition handleManualSearch ::
  "search_history \<Rightarrow> string \<Rightarrow> string \<Rightarrow> search_outcome \<Rightarrow> search_history" where
  "handleManualSearch prev cid query outcome =
     (if trim query = [] then prev
      else if outcome = SearchOk then addToHistory prev cid query
      else prev)"

text \<open>A session: searches issued one after the other, each with its selected category.\<close>

fun run_searches ::
  "search_history \<Rightarrow> (string \<times> string \<times> search_outcome) list \<Rightarrow> search_history" where
  "run_searches h [] = h"
| "run_searches h ((cid, query, outcome) # evs) =
     run_searches (handleManualSearch h cid query outcome) evs"

text \<open>The queries of a session that completed in category \<open>cid\<close>, oldest first.\<close>

definition completed_queries :: "string \<Rightarrow> (string \<times> string \<times> search_outcome) list \<Rightarrow> string list" where
  "completed_queries cid evs =
     map (\<lambda>(c, q, out). q)
       (filter (\<lambda>(c, q, out). c = cid \<and> trim q \<noteq> [] \<and> out = SearchOk) evs)"

section \<open>Server: price extraction\<close>

text \<open>
  Numbers are JavaScript numbers. The model keeps the exact decimal value (a rational) and the
  one non-value the code can produce, \<^verbatim>\<open>NaN\<close>. Rounding to a double is left out: a decimal
  too small for a double stays positive here where the code has 0, and one too large stays
  finite where the code has \<^verbatim>\<open>Infinity\<close>.
\<close>

datatype number = Num rat | NaN

text \<open>
  The value handed to \<^verbatim>\<open>extractPrice\<close> comes from the catalog's JSON: \<^verbatim>\<open>null\<close> or a missing
  field, a number, a string, a boolean, or an object, of which the code reads the fields
  \<^verbatim>\<open>raw\<close>, \<^verbatim>\<open>value\<close>, \<^verbatim>\<open>amount\<close>, \<^verbatim>\<open>price\<close> and \<^verbatim>\<open>currency\<close> (an array is an object with none
  of them).
\<close>

datatype price_data =
    PNull
  | PNum rat
  | PStr string
  | PBool bool
  | PObj (raw_field: price_data) (value_field: price_data) (amount_field: price_data)
      (price_field: price_data) (currency_field: "string option")

text \<open>JavaScript truthiness of such a value: \<^verbatim>\<open>null\<close>, \<^verbatim>\<open>0\<close>, \<^verbatim>\<open>""\<close> and \<^verbatim>\<open>false\<close> are falsy.\<close>

fun truthy :: "price_data \<Rightarrow> bool" where
  "truthy PNull = False"
| "truthy (PNum n) = (n \<noteq> 0)"
| "truthy (PStr s) = (s \<noteq> [])"
| "truthy (PBool b) = b"
| "truthy (PObj _ _ _ _ _) = True"

definition isDigit :: "char \<Rightarrow> bool" where
  "isDigit c = (c \<in> set ''0123456789'')"

definition isDigitOrComma :: "char \<Rightarrow> bool" where
  "isDigitOrComma c = (isDigit c \<or> c = CHR '','')"

text \<open>
  \<^verbatim>\<open>s.match(/[\d,]+\.?\d*/)\<close>: the leftmost match. It starts at the first digit or comma,
  takes the whole run of digits and commas, then a dot if one follows, then the digits after
  it; every part after the first is optional, so the greedy choice never backtracks.
  \<open>None\<close> is \<^verbatim>\<open>null\<close> (no digit or comma in the string), \<open>Some m\<close> is \<^verbatim>\<open>match[0]\<close>.
\<close>

definition priceMatch :: "string \<Rightarrow> string option" where
  "priceMatch s =
     (let rest = dropWhile (\<lambda>c. \<not> isDigitOrComma c) s in
      if rest = [] then None
      else
        let run = takeWhile isDigitOrComma rest in
        (case dropWhile isDigitOrComma rest of
           c # t \<Rightarrow> if c = CHR ''.'' then Some (run @ [c] @ takeWhile isDigit t) else Some run
         | [] \<Rightarrow> Some run))"

definition digitsValue :: "string \<Rightarrow> nat" where
  "digitsValue ds = foldl (\<lambda>a c. 10 * a + (of_char c - 48)) 0 ds"

text \<open>
  \<^verbatim>\<open>parseFloat\<close> on the strings the code gives it, which hold digits and at most one dot:
  the longest prefix that is a decimal literal, \<^verbatim>\<open>NaN\<close> when there is no digit on either
  side of the dot.
\<close>

definition parseFloat :: "string \<Rightarrow> number" where
  "parseFloat s =
     (let ip = takeWhile isDigit s;
          fp = (case dropWhile isDigit s of
                  c # t \<Rightarrow> if c = CHR ''.'' then takeWhile isDigit t else []
                | [] \<Rightarrow> [])
      in if ip = [] \<and> fp = [] then NaN
         else Num (of_nat (digitsValue ip) + of_nat (digitsValue fp) / 10 ^ length fp))"

text \<open>\<^verbatim>\<open>match ? parseFloat(match[0].replace(/,/g, '')) : 0\<close>\<close>

definition parsePriceString :: "string \<Rightarrow> number" where
  "parsePriceString s =
     (case priceMatch s of
        None \<Rightarrow> Num 0
      | Some m \<Rightarrow> parseFloat (filter (\<lambda>c. c \<noteq> CHR '','') m))"

text \<open>
  \<^verbatim>\<open>extractPrice\<close>, branch by branch: a falsy value gives 0, a number itself, a string the
  parsed match; of an object the first truthy of \<^verbatim>\<open>raw\<close>, \<^verbatim>\<open>value\<close>, \<^verbatim>\<open>amount\<close>, \<^verbatim>\<open>price\<close>
  (else 0) is taken and parsed when it is a string, returned when it is a number, and
  replaced by 0 otherwise; anything else (a boolean) gives 0.
\<close>

definition extractPrice :: "price_data \<Rightarrow> number" where
  "extractPrice priceData =
     (if \<not> truthy priceData then Num 0
      else case priceData of
        PNum n \<Rightarrow> Num n
      | PStr s \<Rightarrow> parsePriceString s
      | PObj r v a p cur \<Rightarrow>
          (let price = (if truthy r then r else if truthy v then v
                        else if truthy a then a else if truthy p then p else PNum 0)
           in case price of
                PStr s \<Rightarrow> parsePriceString s
              | PNum n \<Rightarrow> Num n
              | _ \<Rightarrow> Num 0)
      | _ \<Rightarrow> Num 0)"

section \<open>Server: normalising the catalog's listings\<close>

text \<open>Decimal rendering of an array index or a length, as a template literal prints it.\<close>

fun showNat :: "nat \<Rightarrow> string" where
  "showNat n = (if n < 10 then [char_of (48 + n)] else showNat (n div 10) @ [char_of (48 + n mod 10)])"

declare showNat.simps [simp del]

text \<open>
  A listing as the catalog returns it. Of each the handler reads \<^verbatim>\<open>asin\<close>, \<^verbatim>\<open>title\<close>,
  \<^verbatim>\<open>price\<close>, \<^verbatim>\<open>image\<close> and \<^verbatim>\<open>link\<close>; a field that is missing is \<open>None\<close>, and the empty
  string is falsy like a missing one.
\<close>

record raw_product =
  asin :: "string option"
  raw_title :: "string option"
  raw_price :: price_data
  raw_image :: "string option"
  link :: "string option"

record product =
  id :: string
  title :: string
  price :: number
  currency :: string
  image :: string
  url :: string

text \<open>\<^verbatim>\<open>x || dflt\<close> on an optional string.\<close>

definition orElse :: "string option \<Rightarrow> string \<Rightarrow> string" where
  "orElse x dflt = (case x of None \<Rightarrow> dflt | Some s \<Rightarrow> if s = [] then dflt else s)"

text \<open>\<^verbatim>\<open>product.price?.currency\<close>: only an object can carry the field.\<close>

definition priceCurrency :: "price_data \<Rightarrow> string option" where
  "priceCurrency p = (case p of PObj r v a pr cur \<Rightarrow> cur | _ \<Rightarrow> None)"

text \<open>The callback of \<^verbatim>\<open>.map((product, index) => ...)\<close> in the search handler.\<close>

definition normalizeProduct :: "nat \<times> raw_product \<Rightarrow> product" where
  "normalizeProduct ip =
     (case ip of (index, p) \<Rightarrow>
        \<lparr> id = orElse (asin p) (''product-'' @ showNat index),
          title = orElse (raw_title p) ''Untitled Product'',
          price = extractPrice (raw_price p),
          currency = orElse (priceCurrency (raw_price p)) ''GBP'',
          image = orElse (raw_image p) [],
          url = orElse (link p) ''#'' \<rparr>)"

text \<open>\<^verbatim>\<open>product.price > 0\<close>; a comparison with \<^verbatim>\<open>NaN\<close> is false.\<close>

fun positive :: "number \<Rightarrow> bool" where
  "positive (Num r) = (0 < r)"
| "positive NaN = False"

text \<open>
  \<^verbatim>\<open>(results.search_results || []).slice(0, 25).map(...).filter(product => product.price > 0)\<close>
\<close>

definition processProducts :: "raw_product list option \<Rightarrow> product list" where
  "processProducts search_results =
     filter (\<lambda>p. positive (price p))
       (map normalizeProduct
          (enumerate 0 (take 25 (case search_results of None \<Rightarrow> [] | Some rs \<Rightarrow> rs))))"

section \<open>Client: the search result cache\<close>

text \<open>
  \<^verbatim>\<open>class SearchCache\<close>: a \<^verbatim>\<open>Map\<close> from keys to a result and the time of its insertion.
  Times are \<^verbatim>\<open>Date.now()\<close> values, milliseconds as integers; every method that reads the
  clock takes the value read as an argument.
\<close>

type_synonym 'r search_cache = "string \<rightharpoonup> ('r \<times> int)"

definition CLIENT_CACHE_DURATION :: int where
  "CLIENT_CACHE_DURATION = 5 * 60 * 1000"

text \<open>\<^verbatim>\<open>`${query.toLowerCase().trim()}-${categoryId}-${userId || 'anonymous'}`\<close>\<close>

definition getCacheKey :: "string \<Rightarrow> string \<Rightarrow> string option \<Rightarrow> string" where
  "getCacheKey query categoryId userId =
     trim (toLowerCase query) @ ''-'' @ categoryId @ ''-'' @
       (case userId of None \<Rightarrow> ''anonymous'' | Some u \<Rightarrow> if u = [] then ''anonymous'' else u)"

text \<open>
  \<^verbatim>\<open>get\<close>: no entry is a miss; an entry older than the duration is deleted and is a miss;
  otherwise the stored result. The second component is the cache afterwards.
\<close>

definition SearchCache_get ::
  "'r search_cache \<Rightarrow> int \<Rightarrow> string \<Rightarrow> string \<Rightarrow> string option \<Rightarrow> 'r option \<times> 'r search_cache" where
  "SearchCache_get cache now query categoryId userId =
     (let key = getCacheKey query categoryId userId in
      case cache key of
        None \<Rightarrow> (None, cache)
      | Some (result, timestamp) \<Rightarrow>
          if now - timestamp > CLIENT_CACHE_DURATION then (None, cache(key := None))
          else (Some result, cache))"

definition SearchCache_cleanup :: "'r search_cache \<Rightarrow> int \<Rightarrow> 'r search_cache" where
  "SearchCache_cleanup cache now =
     (\<lambda>key. case cache key of
        None \<Rightarrow> None
      | Some (result, timestamp) \<Rightarrow>
          if now - timestamp > CLIENT_CACHE_DURATION then None else Some (result, timestamp))"

text \<open>\<^verbatim>\<open>set\<close> stores the result with the time read then, and sweeps with the time read after.\<close>

definition SearchCache_set ::
  "'r search_cache \<Rightarrow> int \<Rightarrow> int \<Rightarrow> string \<Rightarrow> string \<Rightarrow> 'r \<Rightarrow> string option \<Rightarrow> 'r search_cache" where
  "SearchCache_set cache now now_cleanup query categoryId result userId =
     SearchCache_cleanup
       (cache(getCacheKey query categoryId userId \<mapsto> (result, now))) now_cleanup"

section \<open>Server: the shared response cache and the external replies\<close>

text \<open>The fields of \<^verbatim>\<open>SurveyData\<close>, the stored personalization profile.\<close>

record survey =
  name :: string
  username :: string
  gender :: string
  categories :: "string list"
  budget :: string
  motivations :: "string list"
  brandPreference :: string
  shoppingPattern :: string
  stylePreferences :: "string list"
  dealSensitivity :: string
  otherCategory :: string

text \<open>
  What \<^verbatim>\<open>JSON.parse\<close> gives the optimizer: an object of which the code reads two fields,
  each a string or absent.
\<close>

record optimization =
  optimized_search :: "string option"
  reasoning :: "string option"

text \<open>
  What \<^verbatim>\<open>JSON.parse\<close> gives the ranker: an array whose elements are \<^verbatim>\<open>null\<close> or objects with
  the fields \<^verbatim>\<open>position\<close>, \<^verbatim>\<open>rank\<close> and \<^verbatim>\<open>reasoning\<close>, each possibly absent. Positions and
  ranks are taken to be integers, as the prompt asks for.
\<close>

datatype ranking_entry =
    NullEntry
  | Entry (position: "int option") (entry_rank: "int option") (entry_reasoning: "string option")

text \<open>
  \<^verbatim>\<open>geminiCache\<close> is one \<^verbatim>\<open>Map<string, { result: any; timestamp: number }>\<close> used by both
  the optimizer and the ranker, so a cached result is either kind of value.
\<close>

datatype gemini_result = Optimization optimization | Rankings "ranking_entry list"

type_synonym gemini_cache = "string \<rightharpoonup> (gemini_result \<times> int)"

definition CACHE_DURATION :: int where
  "CACHE_DURATION = 10 * 60 * 1000"

text \<open>
  The check both functions make on entry:
  \<^verbatim>\<open>cached && Date.now() - cached.timestamp < CACHE_DURATION\<close>. Nothing is deleted here.
\<close>

definition cacheLookup :: "gemini_cache \<Rightarrow> string \<Rightarrow> int \<Rightarrow> gemini_result option" where
  "cacheLookup cache cacheKey now =
     (case cache cacheKey of
        None \<Rightarrow> None
      | Some (result, timestamp) \<Rightarrow> if now - timestamp < CACHE_DURATION then Some result else None)"

text \<open>
  The periodic sweep installed with \<^verbatim>\<open>setInterval\<close>: deletes every entry older than the
  duration.
\<close>

definition sweep :: "gemini_cache \<Rightarrow> int \<Rightarrow> gemini_cache" where
  "sweep cache now =
     (\<lambda>key. case cache key of
        None \<Rightarrow> None
      | Some (result, timestamp) \<Rightarrow>
          if now - timestamp > CACHE_DURATION then None else Some (result, timestamp))"

text \<open>
  What one call of the generative-language service looks like from the code: \<^verbatim>\<open>fetch\<close>
  rejects (network error, or the abort fired by the timeout); the response is not ok; the
  body is not JSON; or the body is JSON and \<^verbatim>\<open>data.candidates?.[0]?.content?.parts?.[0]?.text\<close>
  is a string or missing.
\<close>

datatype reply =
    FetchRejected
  | NotOk nat
  | BodyNotJson
  | Body "string option"

text \<open>
  What one invocation observes of its surroundings: the credential in the environment, the
  clock at the cache check, the service's reply, the result of \<^verbatim>\<open>JSON.parse\<close> on the matched
  text (\<open>None\<close> when it throws) and the clock at the cache write.
\<close>

record 'r call =
  geminiApiKey :: "string option"
  now :: int
  reply :: reply
  JSON_parse :: "string \<Rightarrow> 'r option"
  now_write :: int

text \<open>
  \<^verbatim>\<open>text.match(/\{[\s\S]*\}/)\<close> and \<^verbatim>\<open>text.match(/\[[\s\S]*\]/)\<close>: from the first opening
  character to the last closing character after it; \<open>None\<close> when there is no such pair.
\<close>

definition matchSpan :: "char \<Rightarrow> char \<Rightarrow> string \<Rightarrow> string option" where
  "matchSpan opening closing text =
     (case dropWhile (\<lambda>c. c \<noteq> opening) text of
        [] \<Rightarrow> None
      | c # rest \<Rightarrow>
          (case rev (dropWhile (\<lambda>c. c \<noteq> closing) (rev rest)) of
             [] \<Rightarrow> None
           | inner \<Rightarrow> Some (c # inner)))"

text \<open>
  The inner \<^verbatim>\<open>try\<close> block of both functions, from \<^verbatim>\<open>fetch\<close> to \<^verbatim>\<open>JSON.parse\<close>. \<open>Inl\<close> is the
  message of the exception thrown, \<open>Inr\<close> the parsed value.
\<close>

definition callGemini :: "char \<Rightarrow> char \<Rightarrow> string \<Rightarrow> string \<Rightarrow> 'r call \<Rightarrow> string + 'r" where
  "callGemini opening closing noText noMatch c =
     (case reply c of
        FetchRejected \<Rightarrow> Inl ''fetch failed''
      | NotOk status \<Rightarrow> Inl (''HTTP '' @ showNat status)
      | BodyNotJson \<Rightarrow> Inl ''Unexpected token''
      | Body None \<Rightarrow> Inl noText
      | Body (Some generatedText) \<Rightarrow>
          if generatedText = [] then Inl noText
          else (case matchSpan opening closing generatedText of
                  None \<Rightarrow> Inl noMatch
                | Some m \<Rightarrow>
                    (case JSON_parse c m of
                       None \<Rightarrow> Inl ''Unexpected token''
                     | Some result \<Rightarrow> Inr result)))"

text \<open>\<^verbatim>\<open>!geminiApiKey\<close>: the variable is unset or empty.\<close>

definition noCredential :: "'r call \<Rightarrow> bool" where
  "noCredential c = (case geminiApiKey c of None \<Rightarrow> True | Some k \<Rightarrow> k = [])"

section \<open>Server: the query optimizer\<close>

definition createFallbackOptimization :: "string \<Rightarrow> optimization" where
  "createFallbackOptimization query =
     \<lparr> optimized_search = Some query,
       reasoning = Some ''Direct search (AI optimization unavailable)'' \<rparr>"

text \<open>\<^verbatim>\<open>surveyData?.gender || 'none'\<close> and the like.\<close>

definition fieldOrNone :: "(survey \<Rightarrow> string) \<Rightarrow> survey option \<Rightarrow> string" where
  "fieldOrNone f surveyData =
     (case surveyData of None \<Rightarrow> ''none'' | Some s \<Rightarrow> if f s = [] then ''none'' else f s)"

definition searchCacheKey :: "string \<Rightarrow> string \<Rightarrow> survey option \<Rightarrow> string" where
  "searchCacheKey query categoryName surveyData =
     ''search:'' @ query @ '':'' @ categoryName @ '':'' @ fieldOrNone gender surveyData @ '':'' @
       fieldOrNone budget surveyData"

text \<open>
  \<^verbatim>\<open>optimizeSearchWithGemini\<close>. The prompt sent to the service is not modelled: the reply is
  part of the call's surroundings. The function returns the value and the cache afterwards.
  A fresh cache entry is returned as it is; without a credential the fallback is returned;
  every exception of the inner block is caught and answered with the fallback; a parsed
  result is written to the cache and returned.
\<close>

definition optimizeSearchWithGemini ::
  "gemini_cache \<Rightarrow> optimization call \<Rightarrow> string \<Rightarrow> string \<Rightarrow> survey option
     \<Rightarrow> gemini_result \<times> gemini_cache" where
  "optimizeSearchWithGemini cache c query categoryName surveyData =
     (let cacheKey = searchCacheKey query categoryName surveyData in
      case cacheLookup cache cacheKey (now c) of
        Some cached \<Rightarrow> (cached, cache)
      | None \<Rightarrow>
          if noCredential c then (Optimization (createFallbackOptimization query), cache)
          else (case callGemini CHR ''{'' CHR ''}'' ''No response generated'' ''No JSON found'' c of
                  Inl message \<Rightarrow> (Optimization (createFallbackOptimization query), cache)
                | Inr result \<Rightarrow>
                    (Optimization result,
                     cache(cacheKey \<mapsto> (Optimization result, now_write c)))))"

text \<open>
  The failures of the external call as the specification lists them: no credential, a
  network error or the timeout's abort, a response that is not 2xx, a body that is not JSON,
  a body without generated text, generated text without a \<^verbatim>\<open>{...}\<close> span, and a span that
  does not parse.
\<close>

definition optimizerCallFails :: "optimization call \<Rightarrow> bool" where
  "optimizerCallFails c =
     (noCredential c \<or>
      (case reply c of
         FetchRejected \<Rightarrow> True
       | NotOk status \<Rightarrow> True
       | BodyNotJson \<Rightarrow> True
       | Body None \<Rightarrow> True
       | Body (Some generatedText) \<Rightarrow>
           generatedText = [] \<or>
           (case matchSpan CHR ''{'' CHR ''}'' generatedText of
              None \<Rightarrow> True
            | Some m \<Rightarrow> JSON_parse c m = None)))"

section \<open>Server: the product ranker\<close>

text \<open>\<^verbatim>\<open>{ ...product, rank: ..., reasoning: ... }\<close>: the product's fields and two more.\<close>

record ranked_product = product +
  rank :: int
  reasoning :: string

text \<open>What the code can throw where nothing catches it inside the function.\<close>

datatype exn = TypeError | Error string

text \<open>
  \<^verbatim>\<open>rankings.find((r: any) => r.position === index + 1)\<close>: the first entry whose position
  is the 1-based index. Reading \<^verbatim>\<open>position\<close> of a \<^verbatim>\<open>null\<close> element met on the way throws.
\<close>

fun findRanking :: "ranking_entry list \<Rightarrow> nat \<Rightarrow> exn + ranking_entry option" where
  "findRanking [] index = Inr None"
| "findRanking (NullEntry # rs) index = Inl TypeError"
| "findRanking (Entry p r t # rs) index =
     (if p = Some (int index + 1) then Inr (Some (Entry p r t)) else findRanking rs index)"

text \<open>\<^verbatim>\<open>ranking?.rank || index + 1\<close>: a missing entry, a missing rank and the rank 0 are falsy.\<close>

definition rankOr :: "ranking_entry option \<Rightarrow> nat \<Rightarrow> int" where
  "rankOr ranking index =
     (case ranking of
        Some (Entry p (Some r) t) \<Rightarrow> if r = 0 then int index + 1 else r
      | _ \<Rightarrow> int index + 1)"

text \<open>\<^verbatim>\<open>ranking?.reasoning || dflt\<close>\<close>

definition reasoningOr :: "ranking_entry option \<Rightarrow> string \<Rightarrow> string" where
  "reasoningOr ranking dflt =
     (case ranking of
        Some (Entry p r (Some t)) \<Rightarrow> if t = [] then dflt else t
      | _ \<Rightarrow> dflt)"

text \<open>\<^verbatim>\<open>Array.prototype.map\<close> with a callback that may throw: the first exception ends it.\<close>

fun mapE :: "('a \<Rightarrow> 'e + 'b) \<Rightarrow> 'a list \<Rightarrow> 'e + 'b list" where
  "mapE f [] = Inr []"
| "mapE f (x # xs) =
     (case f x of
        Inl e \<Rightarrow> Inl e
      | Inr y \<Rightarrow> (case mapE f xs of Inl e \<Rightarrow> Inl e | Inr ys \<Rightarrow> Inr (y # ys)))"

text \<open>
  The callback that applies rankings to the products, used with the default reasoning
  'Cached ranking' on a cache hit and 'AI ranked' after a call.
\<close>

definition applyRanking :: "ranking_entry list \<Rightarrow> string \<Rightarrow> nat \<times> product \<Rightarrow> exn + ranked_product" where
  "applyRanking rankings dflt ip =
     (case ip of (index, product) \<Rightarrow>
        (case findRanking rankings index of
           Inl e \<Rightarrow> Inl e
         | Inr ranking \<Rightarrow>
             Inr (product.extend product
                    (ranked_product.fields (rankOr ranking index) (reasoningOr ranking dflt)))))"

text \<open>
  The callback of the two default rankings:
  \<^verbatim>\<open>(product, index) => ({ ...product, rank: index + 1, reasoning: label })\<close>
\<close>

definition defaultRanking :: "string \<Rightarrow> product list \<Rightarrow> ranked_product list" where
  "defaultRanking label products =
     map (\<lambda>(index, product).
            product.extend product (ranked_product.fields (int index + 1) label))
       (enumerate 0 products)"

text \<open>\<^verbatim>\<open>`rank:${query}:${productsToRank.length}:${surveyData?.gender || 'none'}`\<close>\<close>

definition rankCacheKey :: "string \<Rightarrow> product list \<Rightarrow> survey option \<Rightarrow> string" where
  "rankCacheKey query productsToRank surveyData =
     ''rank:'' @ query @ '':'' @ showNat (length productsToRank) @ '':'' @
       fieldOrNone gender surveyData"

text \<open>
  \<^verbatim>\<open>rankProductsWithGemini\<close>. As for the optimizer the prompt is not modelled. The cache
  check and the replay of cached rankings stand before the \<^verbatim>\<open>try\<close>, so an exception there
  leaves the function; inside the \<^verbatim>\<open>try\<close> every exception ends in the default ranking with
  the reasoning 'Default ranking (error)'. The rankings are written to the cache before
  they are applied. \<^verbatim>\<open>rankedProducts.sort((a, b) => a.rank - b.rank)\<close> is a stable sort by
  rank.
\<close>

definition rankProductsWithGemini ::
  "gemini_cache \<Rightarrow> ranking_entry list call \<Rightarrow> string \<Rightarrow> product list \<Rightarrow> survey option
     \<Rightarrow> (exn + ranked_product list) \<times> gemini_cache" where
  "rankProductsWithGemini cache c query products surveyData =
     (let productsToRank = take 20 products;
          cacheKey = rankCacheKey query productsToRank surveyData
      in case cacheLookup cache cacheKey (now c) of
        Some (Rankings cachedRankings) \<Rightarrow>
          (mapE (applyRanking cachedRankings ''Cached ranking'') (enumerate 0 products), cache)
      | Some (Optimization cachedObject) \<Rightarrow> (Inl TypeError, cache)
      | None \<Rightarrow>
          if noCredential c
          then (Inr (defaultRanking ''Default ranking (AI unavailable)'' products), cache)
          else (case callGemini CHR ''['' CHR '']'' ''No ranking response''
                       ''No ranking array found'' c of
                  Inl message \<Rightarrow> (Inr (defaultRanking ''Default ranking (error)'' products), cache)
                | Inr rankings \<Rightarrow>
                    (let cache' = cache(cacheKey \<mapsto> (Rankings rankings, now_write c)) in
                     case mapE (applyRanking rankings ''AI ranked'') (enumerate 0 products) of
                       Inl e \<Rightarrow> (Inr (defaultRanking ''Default ranking (error)'' products), cache')
                     | Inr rankedProducts \<Rightarrow> (Inr (sort_key rank rankedProducts), cache'))))"

text \<open>The same list of failures for the ranker's call, which looks for a \<^verbatim>\<open>[...]\<close> span.\<close>

definition rankerCallFails :: "ranking_entry list call \<Rightarrow> bool" where
  "rankerCallFails c =
     (case reply c of
        FetchRejected \<Rightarrow> True
      | NotOk status \<Rightarrow> True
      | BodyNotJson \<Rightarrow> True
      | Body None \<Rightarrow> True
      | Body (Some generatedText) \<Rightarrow>
          generatedText = [] \<or>
          (case matchSpan CHR ''['' CHR '']'' generatedText of
             None \<Rightarrow> True
           | Some m \<Rightarrow> JSON_parse c m = None))"

text \<open>
  The ranks a response supplies and the code keeps (present and not 0) lie between \<open>lo\<close> and
  \<open>hi\<close>.
\<close>

definition suppliedRanksWithin :: "int \<Rightarrow> int \<Rightarrow> ranking_entry list \<Rightarrow> bool" where
  "suppliedRanksWithin lo hi rankings =
     list_all (\<lambda>e. case e of
                  NullEntry \<Rightarrow> True
                | Entry p r t \<Rightarrow> (case r of None \<Rightarrow> True | Some n \<Rightarrow> n = 0 \<or> (lo \<le> n \<and> n \<le> hi)))
       rankings"

section \<open>Server: the search handler\<close>

text \<open>
  Modelled from the spec: the module \<^verbatim>\<open>kv_store.tsx\<close> (\<^verbatim>\<open>get\<close>, \<^verbatim>\<open>set\<close>, \<^verbatim>\<open>del\<close>) is not among
  the sources. The specification describes it as a flat, reliable associative store, so
  \<^verbatim>\<open>get\<close> is a lookup (\<open>None\<close> for \<^verbatim>\<open>undefined\<close>), \<^verbatim>\<open>set\<close> an update and \<^verbatim>\<open>del\<close> a removal,
  none of which fails. The store is kept as one mapping per key prefix, \<^verbatim>\<open>user:{id}\<close>,
  \<^verbatim>\<open>username:{name}\<close> and \<^verbatim>\<open>survey:{userId}\<close>: no key of one prefix is a key of another
  (the fifth character is a colon only after \<^verbatim>\<open>user\<close>), so the three do not interfere.
\<close>

record user_profile =
  id :: string
  name :: string
  username :: string
  created_at :: string

record kv_store =
  users :: "string \<rightharpoonup> user_profile"
  usernames :: "string \<rightharpoonup> string"
  surveys :: "string \<rightharpoonup> survey"

text \<open>What \<^verbatim>\<open>searchProducts\<close> resolves to: the catalog's JSON, of which two fields are read.\<close>

record catalog_results =
  search_results :: "raw_product list option"
  total_results :: "nat option"

text \<open>
  The surroundings of one search request: the two possible optimizer calls, the catalog as
  a function of the search term and the category id (\<open>Inl\<close> when \<^verbatim>\<open>searchProducts\<close> throws),
  and the ranker's call.
\<close>

record search_env =
  speculative :: "optimization call"
  personalised :: "optimization call"
  catalog :: "string \<Rightarrow> string \<Rightarrow> exn + catalog_results"
  ranker_call :: "ranking_entry list call"

text \<open>
  The body of the 200 response. The fields \<^verbatim>\<open>query\<close>, \<^verbatim>\<open>category_id\<close>, \<^verbatim>\<open>category_name\<close>,
  \<^verbatim>\<open>products\<close> and \<^verbatim>\<open>total_results\<close> carry the prefix \<open>result_\<close> here.
\<close>

record search_result =
  success :: bool
  result_query :: string
  optimized_query :: "string option"
  result_category_id :: string
  result_category_name :: string
  result_products :: "ranked_product list"
  result_total_results :: nat
  optimization_reasoning :: "string option"

datatype response =
    Json200 search_result
  | Json400 string
  | Json500 exn

text \<open>\<^verbatim>\<open>finalOptimization.optimized_search\<close> and \<^verbatim>\<open>optimization.reasoning\<close> of a value from the
  optimizer; an array has neither field.\<close>

definition optimizedSearchOf :: "gemini_result \<Rightarrow> string option" where
  "optimizedSearchOf r = (case r of Optimization opt \<Rightarrow> optimized_search opt | Rankings rs \<Rightarrow> None)"

definition reasoningOf :: "gemini_result \<Rightarrow> string option" where
  "reasoningOf r = (case r of Optimization opt \<Rightarrow> optimization.reasoning opt | Rankings rs \<Rightarrow> None)"

text \<open>\<^verbatim>\<open>String.prototype.includes\<close>, here \<open>str_includes\<close>.\<close>

fun str_includes :: "string \<Rightarrow> string \<Rightarrow> bool" where
  "str_includes [] sub = (sub = [])"
| "str_includes (c # s) sub = (take (length sub) (c # s) = sub \<or> str_includes s sub)"

text \<open>\<^verbatim>\<open>surveyData && surveyData.gender && surveyData.budget\<close>\<close>

definition hasGenderAndBudget :: "survey option \<Rightarrow> bool" where
  "hasGenderAndBudget surveyData =
     (case surveyData of None \<Rightarrow> False | Some s \<Rightarrow> gender s \<noteq> [] \<and> budget s \<noteq> [])"

text \<open>
  The handler from the speculative optimization to \<^verbatim>\<open>finalOptimization\<close>. Reading
  \<^verbatim>\<open>.includes\<close> of a reasoning that is not there throws, which the handler's \<^verbatim>\<open>catch\<close> turns
  into a 500.
\<close>

definition finalOptimization ::
  "gemini_cache \<Rightarrow> search_env \<Rightarrow> string \<Rightarrow> string \<Rightarrow> survey option
     \<Rightarrow> (exn + gemini_result) \<times> gemini_cache" where
  "finalOptimization cache env query category_name surveyData =
     (case optimizeSearchWithGemini cache (speculative env) query category_name None of
        (optimization, cache1) \<Rightarrow>
          if hasGenderAndBudget surveyData
          then (case reasoningOf optimization of
                  None \<Rightarrow> (Inl TypeError, cache1)
                | Some text \<Rightarrow>
                    if str_includes text ''unavailable''
                    then (case optimizeSearchWithGemini cache1 (personalised env) query
                                 category_name surveyData of
                            (reoptimized, cache2) \<Rightarrow> (Inr reoptimized, cache2))
                    else (Inr optimization, cache1))
          else (Inr optimization, cache1))"

text \<open>
  The handler from the catalog search to the response. An \<^verbatim>\<open>optimized_search\<close> that is not
  there is sent to the catalog as the text \<^verbatim>\<open>undefined\<close>.
\<close>

definition searchWith ::
  "gemini_cache \<Rightarrow> search_env \<Rightarrow> string \<Rightarrow> string \<Rightarrow> string \<Rightarrow> survey option \<Rightarrow> gemini_result
     \<Rightarrow> response \<times> gemini_cache" where
  "searchWith cache env query category_id category_name surveyData finalOpt =
     (case catalog env
             (case optimizedSearchOf finalOpt of None \<Rightarrow> ''undefined'' | Some s \<Rightarrow> s)
             category_id of
        Inl e \<Rightarrow> (Json500 e, cache)
      | Inr results \<Rightarrow>
          (let products = processProducts (search_results results) in
           case rankProductsWithGemini cache (ranker_call env) query products surveyData of
             (Inl e, cache') \<Rightarrow> (Json500 e, cache')
           | (Inr rankedProducts, cache') \<Rightarrow>
               (Json200
                  \<lparr> success = True,
                    result_query = query,
                    optimized_query = optimizedSearchOf finalOpt,
                    result_category_id = category_id,
                    result_category_name = category_name,
                    result_products = rankedProducts,
                    result_total_results =
                      (case total_results results of
                         None \<Rightarrow> length rankedProducts
                       | Some n \<Rightarrow> if n = 0 then length rankedProducts else n),
                    optimization_reasoning = reasoningOf finalOpt \<rparr>,
                cache')))"

text \<open>
  The \<^verbatim>\<open>POST /search\<close> handler: validation, the profile lookup (a missing or empty
  \<^verbatim>\<open>userId\<close> gives no profile), the choice of the optimization, and the rest.
\<close>

definition search ::
  "kv_store \<Rightarrow> gemini_cache \<Rightarrow> search_env \<Rightarrow> string \<Rightarrow> string \<Rightarrow> string \<Rightarrow> string option
     \<Rightarrow> response \<times> gemini_cache" where
  "search kv cache env query category_id category_name userId =
     (if query = [] \<or> category_id = [] \<or> category_name = []
      then (Json400 ''Query, category_id, and category_name are required'', cache)
      else
        (let surveyData = (case userId of
                             None \<Rightarrow> None
                           | Some u \<Rightarrow> if u = [] then None else surveys kv u)
         in case finalOptimization cache env query category_name surveyData of
              (Inl e, cache1) \<Rightarrow> (Json500 e, cache1)
            | (Inr finalOpt, cache1) \<Rightarrow>
                searchWith cache1 env query category_id category_name surveyData finalOpt))"

section \<open>Server: user profiles and the username index\<close>

datatype user_response =
    UserOk nat user_profile
  | UserError nat string

text \<open>\<^verbatim>\<open>username.toLowerCase().trim()\<close>\<close>

definition cleanUsername :: "string \<Rightarrow> string" where
  "cleanUsername body_username = trim (toLowerCase body_username)"

text \<open>\<^verbatim>\<open>!s || s.trim().length === 0\<close>\<close>

definition blank :: "string \<Rightarrow> bool" where
  "blank s = (s = [] \<or> length (trim s) = 0)"

text \<open>
  A request to \<^verbatim>\<open>PUT /users/:userId\<close> or \<^verbatim>\<open>POST /users\<close> between two of its \<^verbatim>\<open>await\<close>s on
  the store. The handlers are asynchronous: each store operation is one step, and other
  requests' steps may come in between. The constructors carry what the handler holds in
  its local variables at that point: the user id, the trimmed name, the cleaned username
  and the record read (PUT), or the profile built (POST).
\<close>

datatype request =
    PutReceived string string string
  | PutGotUser string string string user_profile
  | PutChecked string string string user_profile
  | PutDeleted string string string user_profile
  | PutIndexed string string string user_profile
  | PostReceived string string string string
  | PostChecked user_profile
  | PostStored user_profile
  | Answered user_response

text \<open>
  One step of a request: the code up to and including its next store operation.

  \<^verbatim>\<open>PUT\<close>: validation and \<^verbatim>\<open>kv.get(`user:${userId}`)\<close> (400, 404; an unchanged username
  goes straight to the write of the record); \<^verbatim>\<open>kv.get(`username:${cleanUsername}`)\<close> (409
  on any entry); \<^verbatim>\<open>kv.del\<close> of the old index entry; \<^verbatim>\<open>kv.set\<close> of the new one; \<^verbatim>\<open>kv.set\<close>
  of the record and the 200.

  \<^verbatim>\<open>POST\<close>: validation and \<^verbatim>\<open>kv.get(`username:${cleanUsername}`)\<close> (400, 409), with the
  identifier from \<^verbatim>\<open>crypto.randomUUID()\<close> and the creation time given in the request;
  \<^verbatim>\<open>kv.set\<close> of the record; \<^verbatim>\<open>kv.set\<close> of the index entry and the 201.
\<close>

fun step :: "kv_store \<Rightarrow> request \<Rightarrow> request \<times> kv_store" where
  "step kv (PutReceived userId body_name body_username) =
     (if body_name = [] \<or> body_username = [] \<or> length (trim body_name) = 0 \<or>
         length (trim body_username) = 0
      then (Answered (UserError 400 ''Name and username are required''), kv)
      else
        (let clean = cleanUsername body_username;
             cleanName = trim body_name
         in case users kv userId of
              None \<Rightarrow> (Answered (UserError 404 ''User not found''), kv)
            | Some currentUser \<Rightarrow>
                if clean \<noteq> username currentUser
                then (PutGotUser userId cleanName clean currentUser, kv)
                else (PutIndexed userId cleanName clean currentUser, kv)))"
| "step kv (PutGotUser userId cleanName clean currentUser) =
     (case usernames kv clean of
        Some existingUserId \<Rightarrow> (Answered (UserError 409 ''Username is already taken''), kv)
      | None \<Rightarrow> (PutChecked userId cleanName clean currentUser, kv))"
| "step kv (PutChecked userId cleanName clean currentUser) =
     (PutDeleted userId cleanName clean currentUser,
      kv \<lparr> usernames := (usernames kv)(username currentUser := None) \<rparr>)"
| "step kv (PutDeleted userId cleanName clean currentUser) =
     (PutIndexed userId cleanName clean currentUser,
      kv \<lparr> usernames := (usernames kv)(clean \<mapsto> userId) \<rparr>)"
| "step kv (PutIndexed userId cleanName clean currentUser) =
     (let updatedUser = currentUser \<lparr> name := cleanName, username := clean \<rparr>
      in (Answered (UserOk 200 updatedUser),
          kv \<lparr> users := (users kv)(userId \<mapsto> updatedUser) \<rparr>))"
| "step kv (PostReceived userId createdAt body_name body_username) =
     (if body_name = [] \<or> body_username = [] \<or> length (trim body_name) = 0 \<or>
         length (trim body_username) = 0
      then (Answered (UserError 400 ''Name and username are required''), kv)
      else
        (let clean = cleanUsername body_username;
             cleanName = trim body_name
         in case usernames kv clean of
              Some existingUserId \<Rightarrow> (Answered (UserError 409 ''Username is already taken''), kv)
            | None \<Rightarrow>
                (PostChecked \<lparr> id = userId, name = cleanName, username = clean,
                               created_at = createdAt \<rparr>, kv)))"
| "step kv (PostChecked userProfile) =
     (PostStored userProfile, kv \<lparr> users := (users kv)(id userProfile \<mapsto> userProfile) \<rparr>)"
| "step kv (PostStored userProfile) =
     (Answered (UserOk 201 userProfile),
      kv \<lparr> usernames := (usernames kv)(username userProfile \<mapsto> id userProfile) \<rparr>)"
| "step kv (Answered response) = (Answered response, kv)"

text \<open>The store operations a request still has before it, at most.\<close>

fun steps_left :: "request \<Rightarrow> nat" where
  "steps_left (PutReceived userId body_name body_username) = 5"
| "steps_left (PutGotUser userId cleanName clean currentUser) = 4"
| "steps_left (PutChecked userId cleanName clean currentUser) = 3"
| "steps_left (PutDeleted userId cleanName clean currentUser) = 2"
| "steps_left (PutIndexed userId cleanName clean currentUser) = 1"
| "steps_left (PostReceived userId createdAt body_name body_username) = 3"
| "steps_left (PostChecked userProfile) = 2"
| "steps_left (PostStored userProfile) = 1"
| "steps_left (Answered response) = 0"

text \<open>A request run to its answer with no other request's step in between.\<close>

function finish :: "kv_store \<Rightarrow> request \<Rightarrow> user_response \<times> kv_store" where
  "finish kv req =
     (case req of
        Answered response \<Rightarrow> (response, kv)
      | _ \<Rightarrow> finish (snd (step kv req)) (fst (step kv req)))"
  by pat_completeness auto
termination
proof (relation "measure (\<lambda>(kv, req). steps_left req)")
  show "wf (measure (\<lambda>(kv, req). steps_left req))" by simp
qed (auto simp: Let_def split: option.splits)

text \<open>
  \<^verbatim>\<open>PUT /users/:userId\<close> and \<^verbatim>\<open>POST /users\<close> when the request runs alone from its first store
  operation to its answer.
\<close>

definition updateUser ::
  "kv_store \<Rightarrow> string \<Rightarrow> string \<Rightarrow> string \<Rightarrow> user_response \<times> kv_store" where
  "updateUser kv userId body_name body_username =
     finish kv (PutReceived userId body_name body_username)"

definition createUser ::
  "kv_store \<Rightarrow> string \<Rightarrow> string \<Rightarrow> string \<Rightarrow> string \<Rightarrow> user_response \<times> kv_store" where
  "createUser kv userId createdAt body_name body_username =
     finish kv (PostReceived userId createdAt body_name body_username)"

text \<open>
  Two requests whose steps interleave: the schedule says whose step comes next.
\<close>

datatype turn = First | Second

fun interleave ::
  "kv_store \<Rightarrow> request \<Rightarrow> request \<Rightarrow> turn list \<Rightarrow> request \<times> request \<times> kv_store" where
  "interleave kv a b [] = (a, b, kv)"
| "interleave kv a b (First # schedule) =
     interleave (snd (step kv a)) (fst (step kv a)) b schedule"
| "interleave kv a b (Second # schedule) =
     interleave (snd (step kv b)) a (fst (step kv b)) schedule"

text \<open>
  The two directions of agreement between the index and the records: every index entry
  points to a user who has that username, and every user's username is in the index and
  points back to the user.
\<close>

definition index_sound :: "kv_store \<Rightarrow> bool" where
  "index_sound kv =
     (\<forall>n uid. usernames kv n = Some uid \<longrightarrow> (\<exists>u. users kv uid = Some u \<and> username u = n))"

definition index_complete :: "kv_store \<Rightarrow> bool" where
  "index_complete kv =
     (\<forall>uid u. users kv uid = Some u \<longrightarrow> usernames kv (username u) = Some uid)"

section \<open>Sample inputs\<close>

text \<open>
  Two normalised products, and three surroundings of a call: a service that answers with
  text whose bracketed span parses to a given value, a call that is cut off by the timeout,
  and a deployment without credential.
\<close>

definition earbudsA :: product where
  "earbudsA = \<lparr> product.id = ''B0A'', title = ''Earbuds A'', price = Num 19.99, currency = ''GBP'',
                image = [], url = ''#'' \<rparr>"

definition earbudsB :: product where
  "earbudsB = \<lparr> product.id = ''B0B'', title = ''Earbuds B'', price = Num 45, currency = ''GBP'',
                image = [], url = ''#'' \<rparr>"

definition answering :: "'r \<Rightarrow> 'r call" where
  "answering parsed =
     \<lparr> geminiApiKey = Some ''key'', now = 1000, reply = Body (Some ''Here: [{}]''),
       JSON_parse = (\<lambda>s. Some parsed), now_write = 2000 \<rparr>"

definition timingOut :: "'r call" where
  "timingOut =
     \<lparr> geminiApiKey = Some ''key'', now = 1000, reply = FetchRejected,
       JSON_parse = (\<lambda>s. None), now_write = 2000 \<rparr>"

definition unconfigured :: "'r call" where
  "unconfigured =
     \<lparr> geminiApiKey = None, now = 1000, reply = FetchRejected,
       JSON_parse = (\<lambda>s. None), now_write = 2000 \<rparr>"

text \<open>
  A stored profile with gender and budget, the same profile as the settings survey stores it
  (which does not ask for the gender), a store holding them for two users, a catalog that
  returns three listings priced 19.99, 0 and 45.00, and a deployment in which the first
  optimizer call times out, a second one would answer, and the ranker's call times out.
\<close>

definition commuter :: survey where
  "commuter = \<lparr> survey.name = ''Ada'', survey.username = ''ada'', gender = ''Female'',
                 categories = [''Electronics''], budget = ''moderate'', motivations = [''quality''],
                 brandPreference = [], shoppingPattern = [], stylePreferences = [],
                 dealSensitivity = [], otherCategory = [] \<rparr>"

definition resurveyed :: survey where
  "resurveyed = commuter \<lparr> gender := [] \<rparr>"

definition sampleStore :: kv_store where
  "sampleStore = \<lparr> users = Map.empty, usernames = Map.empty,
                    surveys = [''u1'' \<mapsto> commuter, ''u2'' \<mapsto> resurveyed] \<rparr>"

definition sampleListings :: "raw_product list" where
  "sampleListings =
     [\<lparr> asin = Some ''B0A'', raw_title = Some ''Earbuds A'', raw_price = PNum 19.99,
        raw_image = None, link = None \<rparr>,
      \<lparr> asin = Some ''B0X'', raw_title = Some ''Earbuds X'', raw_price = PNum 0,
        raw_image = None, link = None \<rparr>,
      \<lparr> asin = Some ''B0B'', raw_title = Some ''Earbuds B'',
        raw_price = PObj (PStr ''45.00'') PNull PNull PNull (Some ''GBP''),
        raw_image = None, link = None \<rparr>]"

definition sampleCatalog :: "string \<Rightarrow> string \<Rightarrow> exn + catalog_results" where
  "sampleCatalog searchTerm categoryId =
     Inr \<lparr> search_results = Some sampleListings, total_results = None \<rparr>"

definition degraded :: search_env where
  "degraded = \<lparr> speculative = timingOut,
                 personalised = answering \<lparr> optimized_search = Some ''earbuds for commuting'',
                                            optimization.reasoning = Some ''matched to the profile'' \<rparr>,
                 catalog = sampleCatalog,
                 ranker_call = timingOut \<rparr>"

text \<open>A store with two users.\<close>

definition twoUsers :: kv_store where
  "twoUsers =
     \<lparr> users = [''u1'' \<mapsto> \<lparr> id = ''u1'', name = ''Ada'', username = ''ada'', created_at = ''2024'' \<rparr>,
                 ''u2'' \<mapsto> \<lparr> id = ''u2'', name = ''Bob'', username = ''bob'', created_at = ''2024'' \<rparr>],
       usernames = [''ada'' \<mapsto> ''u1'', ''bob'' \<mapsto> ''u2''],
       surveys = Map.empty \<rparr>"

section \<open>Price extraction: the documented inputs, and a string without digits\<close>

lemmas price_defs =
  extractPrice_def parsePriceString_def priceMatch_def isDigitOrComma_def isDigit_def
  parseFloat_def digitsValue_def

text \<open>
  The four documented inputs: an object whose \<^verbatim>\<open>raw\<close> is a pound sign (code unit 0xA3)
  followed by 12.50, the string with a dollar sign and a thousands separator, the number 42,
  and \<^verbatim>\<open>null\<close>. A string with neither digit nor comma, a boolean and an object without any
  of the four fields give 0 as well.
\<close>

lemma extractPrice_documented_inputs:
  "extractPrice (PObj (PStr (CHR 0xA3 # ''12.50'')) PNull PNull PNull None) = Num 12.5"
  "extractPrice (PStr ''$1,234.56'') = Num 1234.56"
  "extractPrice (PNum 42) = Num 42"
  "extractPrice PNull = Num 0"
  "extractPrice (PStr ''call us'') = Num 0"
  "extractPrice (PBool True) = Num 0"
  "extractPrice (PObj PNull PNull PNull PNull (Some ''GBP'')) = Num 0"
  by (simp_all add: price_defs)

lemma extractPrice_falsy: "\<not> truthy p \<Longrightarrow> extractPrice p = Num 0"
  by (simp add: extractPrice_def)

lemma priceMatch_no_digit_or_comma:
  "list_all (\<lambda>c. \<not> isDigitOrComma c) s \<Longrightarrow> parsePriceString s = Num 0"
proof -
  assume "list_all (\<lambda>c. \<not> isDigitOrComma c) s"
  then have "dropWhile (\<lambda>c. \<not> isDigitOrComma c) s = []"
    by (simp add: list_all_iff)
  then show ?thesis
    by (simp add: parsePriceString_def priceMatch_def)
qed

text \<open>
  Claim C4. The documented inputs give the documented prices, but an unparseable string is
  not always turned into 0: the pattern also matches a run of commas, the commas are then
  removed, and \<^verbatim>\<open>parseFloat\<close> of what is left (the empty string, or a lone dot) is
  \<^verbatim>\<open>NaN\<close>. This holds for the string itself and for an object whose \<^verbatim>\<open>raw\<close> field is that
  string.
\<close>

theorem extractPrice_commas_only_is_NaN:
  "extractPrice (PStr '','') = NaN \<and>
   extractPrice (PStr ''n/a, see offer'') = NaN \<and>
   extractPrice (PObj (PStr '',.'') PNull PNull PNull None) = NaN"
  by (simp add: price_defs)

section \<open>Search history: bounded, duplicate free, most recent first\<close>

lemma take_filter_take:
  "distinct xs \<Longrightarrow>
     take n (filter (\<lambda>x. x \<noteq> q) (take (Suc n) xs)) = take n (filter (\<lambda>x. x \<noteq> q) xs)"
proof (induction xs arbitrary: n)
  case Nil
  then show ?case by simp
next
  case (Cons x xs)
  show ?case
  proof (cases n)
    case 0
    then show ?thesis by simp
  next
    case (Suc m)
    show ?thesis
    proof (cases "x = q")
      case True
      with Cons.prems have "q \<notin> set xs" by simp
      then have "filter (\<lambda>x. x \<noteq> q) xs = xs"
        by (auto simp: filter_id_conv)
      moreover from \<open>q \<notin> set xs\<close> have "filter (\<lambda>x. x \<noteq> q) (take (Suc m) xs) = take (Suc m) xs"
        by (auto simp: filter_id_conv dest: in_set_takeD)
      ultimately show ?thesis using True Suc by simp
    next
      case False
      with Cons Suc show ?thesis by simp
    qed
  qed
qed

lemma remdups_snoc:
  "remdups (xs @ [q]) = filter (\<lambda>x. x \<noteq> q) (remdups xs) @ [q]"
  by (induction xs) auto

lemma rev_remdups_snoc:
  "rev (remdups (xs @ [q])) = q # filter (\<lambda>x. x \<noteq> q) (rev (remdups xs))"
  by (simp add: remdups_snoc rev_filter)

lemma categoryHistory_addToHistory:
  "categoryHistory (addToHistory prev cid query) c =
     (if c = cid then take 6 (query # filter (\<lambda>q. q \<noteq> query) (categoryHistory prev cid))
      else categoryHistory prev c)"
  by (simp add: addToHistory_def categoryHistory_def)

lemma run_searches_snoc:
  "run_searches h (evs @ [(cid, query, outcome)]) =
     handleManualSearch (run_searches h evs) cid query outcome"
  by (induction h evs rule: run_searches.induct) simp_all

lemma history_is_recent_queries:
  "categoryHistory (run_searches Map.empty evs) c = take 6 (rev (remdups (completed_queries c evs)))"
proof (induction evs rule: rev_induct)
  case Nil
  show ?case by (simp add: categoryHistory_def completed_queries_def)
next
  case (snoc ev evs)
  obtain cid query outcome where ev: "ev = (cid, query, outcome)"
    by (cases ev) auto
  let ?h = "run_searches Map.empty evs"
  show ?case
  proof (cases "cid = c \<and> trim query \<noteq> [] \<and> outcome = SearchOk")
    case False
    then have "categoryHistory (handleManualSearch ?h cid query outcome) c = categoryHistory ?h c"
      by (auto simp: handleManualSearch_def categoryHistory_addToHistory)
    moreover from False have "completed_queries c (evs @ [ev]) = completed_queries c evs"
      by (auto simp: completed_queries_def ev)
    ultimately show ?thesis
      using snoc by (simp add: ev run_searches_snoc)
  next
    case True
    let ?full = "rev (remdups (completed_queries c evs))"
    have d: "distinct ?full" by simp
    from True have q: "completed_queries c (evs @ [ev]) = completed_queries c evs @ [query]"
      by (simp add: completed_queries_def ev)
    from True have "categoryHistory (handleManualSearch ?h cid query outcome) c =
        take 6 (query # filter (\<lambda>q. q \<noteq> query) (categoryHistory ?h c))"
      by (simp add: handleManualSearch_def categoryHistory_addToHistory)
    also have "\<dots> = take (Suc 5) (query # filter (\<lambda>q. q \<noteq> query) (take (Suc 5) ?full))"
      using snoc by (simp add: eval_nat_numeral)
    also have "\<dots> = query # take 5 (filter (\<lambda>q. q \<noteq> query) (take (Suc 5) ?full))"
      by simp
    also have "\<dots> = query # take 5 (filter (\<lambda>q. q \<noteq> query) ?full)"
      by (simp only: take_filter_take [OF d])
    also have "\<dots> = take (Suc 5) (query # filter (\<lambda>q. q \<noteq> query) ?full)"
      by simp
    also have "\<dots> = take 6 (rev (remdups (completed_queries c (evs @ [ev]))))"
      unfolding q rev_remdups_snoc by (simp add: eval_nat_numeral)
    finally show ?thesis
      by (simp add: ev run_searches_snoc)
  qed
qed

lemma addToHistory_bounded_distinct:
  assumes "distinct (categoryHistory prev cid)"
  shows "length (categoryHistory (addToHistory prev cid query) cid) \<le> 6"
    and "distinct (categoryHistory (addToHistory prev cid query) cid)"
    and "hd (categoryHistory (addToHistory prev cid query) cid) = query"
  using assms by (auto simp: categoryHistory_addToHistory distinct_take dest: in_set_takeD)

text \<open>
  Claim C9. After any sequence of searches starting from the empty history, each category's
  list has at most 6 entries, holds no query twice, and is the list of that category's
  completed queries ordered by their latest occurrence, most recent first, cut to 6; and a
  completed search whose query is already in the category's list moves that query to the
  front instead of adding a second copy.
\<close>

theorem search_history_bounded_distinct_recent_first:
  "length (categoryHistory (run_searches Map.empty evs) c) \<le> 6 \<and>
   distinct (categoryHistory (run_searches Map.empty evs) c) \<and>
   categoryHistory (run_searches Map.empty evs) c =
     take 6 (rev (remdups (completed_queries c evs))) \<and>
   (trim query \<noteq> [] \<and> query \<in> set (categoryHistory (run_searches Map.empty evs) c) \<longrightarrow>
      categoryHistory (run_searches Map.empty (evs @ [(c, query, SearchOk)])) c =
        query # filter (\<lambda>q. q \<noteq> query) (categoryHistory (run_searches Map.empty evs) c))"
proof -
  let ?h = "categoryHistory (run_searches Map.empty evs) c"
  have eq: "?h = take 6 (rev (remdups (completed_queries c evs)))"
    by (rule history_is_recent_queries)
  have len: "length ?h \<le> 6" by (subst eq) simp
  have dist: "distinct ?h" by (subst eq) simp
  have front: "categoryHistory (run_searches Map.empty (evs @ [(c, query, SearchOk)])) c =
        query # filter (\<lambda>q. q \<noteq> query) ?h"
    if nb: "trim query \<noteq> []" and mem: "query \<in> set ?h"
  proof -
    from mem dist have "length (filter (\<lambda>q. q \<noteq> query) ?h) < length ?h"
      by (simp add: length_filter_less)
    with len have "length (filter (\<lambda>q. q \<noteq> query) ?h) \<le> 5" by simp
    then have "take 6 (query # filter (\<lambda>q. q \<noteq> query) ?h) = query # filter (\<lambda>q. q \<noteq> query) ?h"
      by simp
    with nb show ?thesis
      by (simp add: run_searches_snoc handleManualSearch_def categoryHistory_addToHistory)
  qed
  from eq len dist front show ?thesis by blast
qed

theorem search_history_bounded_distinct_recent_first_witness:
  "trim ''tv'' \<noteq> [] \<and>
   ''tv'' \<in> set (categoryHistory
      (run_searches Map.empty [(''c1'', ''tv'', SearchOk), (''c1'', ''hifi'', SearchOk)]) ''c1'') \<and>
   categoryHistory
      (run_searches Map.empty
         ([(''c1'', ''tv'', SearchOk), (''c1'', ''hifi'', SearchOk)] @ [(''c1'', ''tv'', SearchOk)]))
      ''c1'' = [''tv'', ''hifi'']"
proof -
  let ?evs = "[(''c1'', ''tv'', SearchOk), (''c1'', ''hifi'', SearchOk)]"
  have a: "trim ''tv'' \<noteq> []"
    by (simp add: trim_def isSpace_def)
  have b: "''tv'' \<in> set (categoryHistory (run_searches Map.empty ?evs) ''c1'')"
    by (simp add: trim_def isSpace_def handleManualSearch_def addToHistory_def categoryHistory_def)
  from search_history_bounded_distinct_recent_first [of ?evs "''c1''" "''tv''"] a b
  have "categoryHistory (run_searches Map.empty (?evs @ [(''c1'', ''tv'', SearchOk)])) ''c1'' =
      ''tv'' # filter (\<lambda>q. q \<noteq> ''tv'') (categoryHistory (run_searches Map.empty ?evs) ''c1'')"
    by blast
  also have "\<dots> = [''tv'', ''hifi'']"
    by (simp add: trim_def isSpace_def handleManualSearch_def addToHistory_def categoryHistory_def)
  finally show ?thesis using a b by blast
qed

section \<open>The optimizer's fallback\<close>

lemma callGemini_fails_iff:
  "\<not> noCredential c \<Longrightarrow>
     optimizerCallFails c =
       isl (callGemini CHR ''{'' CHR ''}'' ''No response generated'' ''No JSON found'' c)"
  by (auto simp: optimizerCallFails_def callGemini_def split: reply.splits option.splits)

lemma optimizer_without_credential_keeps_cache:
  "noCredential c \<Longrightarrow> snd (optimizeSearchWithGemini cache c query categoryName surveyData) = cache"
  by (simp add: optimizeSearchWithGemini_def Let_def split: option.splits)

lemma optimizer_without_credential_on_empty_cache:
  "noCredential c \<Longrightarrow>
     optimizeSearchWithGemini Map.empty c query categoryName surveyData =
       (Optimization (createFallbackOptimization query), Map.empty)"
  by (simp add: optimizeSearchWithGemini_def cacheLookup_def Let_def)

text \<open>
  Claim C2. When the optimizer gets past its cache check (no fresh entry under its key) and
  the external call fails in any of the listed ways, or is skipped for want of a credential,
  the optimizer returns exactly the raw query as \<^verbatim>\<open>optimized_search\<close> with the reasoning
  "Direct search (AI optimization unavailable)", and leaves the cache as it was.
\<close>

theorem optimizer_failure_returns_fallback:
  assumes "cacheLookup cache (searchCacheKey query categoryName surveyData) (now c) = None"
    and "optimizerCallFails c"
  shows "optimizeSearchWithGemini cache c query categoryName surveyData =
           (Optimization \<lparr> optimized_search = Some query,
                            optimization.reasoning = Some ''Direct search (AI optimization unavailable)'' \<rparr>,
            cache)"
proof (cases "noCredential c")
  case True
  with assms(1) show ?thesis
    by (simp add: optimizeSearchWithGemini_def createFallbackOptimization_def Let_def)
next
  case False
  with assms(2) have "isl (callGemini CHR ''{'' CHR ''}'' ''No response generated'' ''No JSON found'' c)"
    by (simp add: callGemini_fails_iff)
  then obtain message where
    "callGemini CHR ''{'' CHR ''}'' ''No response generated'' ''No JSON found'' c = Inl message"
    by (auto simp: isl_def)
  with assms(1) False show ?thesis
    by (simp add: optimizeSearchWithGemini_def createFallbackOptimization_def Let_def)
qed

theorem optimizer_failure_returns_fallback_witness:
  "cacheLookup Map.empty (searchCacheKey ''wireless earbuds'' ''Electronics'' None) 1000 = None \<and>
   optimizerCallFails
     \<lparr> geminiApiKey = Some ''k'', now = 1000, reply = FetchRejected,
       JSON_parse = (\<lambda>s. None), now_write = 9000 \<rparr> \<and>
   optimizeSearchWithGemini Map.empty
     \<lparr> geminiApiKey = Some ''k'', now = 1000, reply = FetchRejected,
       JSON_parse = (\<lambda>s. None), now_write = 9000 \<rparr>
     ''wireless earbuds'' ''Electronics'' None =
       (Optimization \<lparr> optimized_search = Some ''wireless earbuds'',
                        optimization.reasoning = Some ''Direct search (AI optimization unavailable)'' \<rparr>,
        Map.empty)"
proof -
  let ?c = "\<lparr> geminiApiKey = Some ''k'', now = 1000, reply = FetchRejected,
       JSON_parse = (\<lambda>s. None :: optimization option), now_write = 9000 \<rparr>"
  have a: "cacheLookup Map.empty (searchCacheKey ''wireless earbuds'' ''Electronics'' None) (now ?c) = None"
    by (simp add: cacheLookup_def)
  have b: "optimizerCallFails ?c"
    by (simp add: optimizerCallFails_def)
  from optimizer_failure_returns_fallback [OF a b] a b show ?thesis
    by simp
qed

section \<open>Expiry in the two caches\<close>

lemma sweep_evicts_expired:
  "cache key = Some (result, timestamp) \<Longrightarrow> t - timestamp > CACHE_DURATION \<Longrightarrow>
     sweep cache t key = None"
  by (simp add: sweep_def)

lemma cacheLookup_ignores_expired:
  "cache key = Some (result, timestamp) \<Longrightarrow> \<not> t - timestamp < CACHE_DURATION \<Longrightarrow>
     cacheLookup (cache(key := None)) k t = cacheLookup cache k t"
  by (simp add: cacheLookup_def)


text \<open>
  Claim C5, as the code has it. The client cache deletes an entry older than 5 minutes on
  \<^verbatim>\<open>get\<close> and reports a miss, and returns an entry of at most that age unchanged. The server
  cache returns an entry younger than 10 minutes unchanged and without touching the cache;
  an entry of that age or older is passed over, so the optimizer answers as if the entry
  were absent, but the lookup does not delete it: it stays in the cache until a successful
  call overwrites it (or the periodic sweep removes it).
\<close>

theorem cache_expiry_client_evicts_server_passes_over:
  "(cache (getCacheKey q categoryId userId) = Some (result, timestamp) \<longrightarrow>
      SearchCache_get cache t q categoryId userId =
        (if t - timestamp > 5 * 60 * 1000
         then (None, cache(getCacheKey q categoryId userId := None))
         else (Some result, cache))) \<and>
   (gcache (searchCacheKey query categoryName surveyData) = Some (cached, written) \<longrightarrow>
      (if now c - written < 10 * 60 * 1000
       then optimizeSearchWithGemini gcache c query categoryName surveyData = (cached, gcache)
       else
         fst (optimizeSearchWithGemini gcache c query categoryName surveyData) =
           fst (optimizeSearchWithGemini
                  (gcache(searchCacheKey query categoryName surveyData := None))
                  c query categoryName surveyData) \<and>
         snd (optimizeSearchWithGemini gcache c query categoryName surveyData)
             (searchCacheKey query categoryName surveyData) =
           (case snd (optimizeSearchWithGemini
                        (gcache(searchCacheKey query categoryName surveyData := None))
                        c query categoryName surveyData)
                   (searchCacheKey query categoryName surveyData) of
              None \<Rightarrow> Some (cached, written)
            | Some fresh \<Rightarrow> Some fresh)))"
proof -
  let ?k = "searchCacheKey query categoryName surveyData"
  have client: "SearchCache_get cache t q categoryId userId =
        (if t - timestamp > 5 * 60 * 1000
         then (None, cache(getCacheKey q categoryId userId := None))
         else (Some result, cache))"
    if "cache (getCacheKey q categoryId userId) = Some (result, timestamp)"
    using that by (simp add: SearchCache_get_def CLIENT_CACHE_DURATION_def)
  have server_fresh: "optimizeSearchWithGemini gcache c query categoryName surveyData = (cached, gcache)"
    if "gcache ?k = Some (cached, written)" and "now c - written < 10 * 60 * 1000"
    using that by (simp add: optimizeSearchWithGemini_def cacheLookup_def CACHE_DURATION_def)
  have server_old:
    "fst (optimizeSearchWithGemini gcache c query categoryName surveyData) =
       fst (optimizeSearchWithGemini (gcache(?k := None)) c query categoryName surveyData) \<and>
     snd (optimizeSearchWithGemini gcache c query categoryName surveyData) ?k =
       (case snd (optimizeSearchWithGemini (gcache(?k := None)) c query categoryName surveyData) ?k of
          None \<Rightarrow> Some (cached, written)
        | Some fresh \<Rightarrow> Some fresh)"
    if "gcache ?k = Some (cached, written)" and "\<not> now c - written < 10 * 60 * 1000"
    using that
    by (simp add: optimizeSearchWithGemini_def cacheLookup_def CACHE_DURATION_def Let_def
        split: sum.splits)
  show ?thesis
  proof (intro conjI impI)
    assume "cache (getCacheKey q categoryId userId) = Some (result, timestamp)"
    then show "SearchCache_get cache t q categoryId userId =
        (if t - timestamp > 5 * 60 * 1000
         then (None, cache(getCacheKey q categoryId userId := None))
         else (Some result, cache))"
      by (rule client)
  next
    assume e: "gcache ?k = Some (cached, written)"
    show "if now c - written < 10 * 60 * 1000
       then optimizeSearchWithGemini gcache c query categoryName surveyData = (cached, gcache)
       else
         fst (optimizeSearchWithGemini gcache c query categoryName surveyData) =
           fst (optimizeSearchWithGemini (gcache(?k := None)) c query categoryName surveyData) \<and>
         snd (optimizeSearchWithGemini gcache c query categoryName surveyData) ?k =
           (case snd (optimizeSearchWithGemini (gcache(?k := None)) c query categoryName surveyData) ?k of
              None \<Rightarrow> Some (cached, written)
            | Some fresh \<Rightarrow> Some fresh)"
      using server_fresh [OF e] server_old [OF e] by (cases "now c - written < 10 * 60 * 1000") simp_all
  qed
qed

text \<open>
  At a concrete input: a client entry written at time 0 and read at 300001 is deleted and
  missed; a server entry written at time 0 and looked up at 600000 by an optimizer whose
  call then fails is passed over (the fallback is returned, as without the entry) and is
  still in the cache afterwards.
\<close>

theorem cache_expiry_client_evicts_server_passes_over_witness:
  "SearchCache_get (Map.empty(getCacheKey ''TV'' ''c1'' None \<mapsto> (''stored'', 0)))
       300001 ''TV'' ''c1'' None =
     (None, (Map.empty(getCacheKey ''TV'' ''c1'' None \<mapsto> (''stored'', 0)))
              (getCacheKey ''TV'' ''c1'' None := None)) \<and>
   fst (optimizeSearchWithGemini
          (Map.empty(searchCacheKey ''tv'' ''Electronics'' None \<mapsto>
             (Optimization \<lparr> optimized_search = Some ''smart tv'', optimization.reasoning = Some ''popular'' \<rparr>, 0)))
          \<lparr> geminiApiKey = Some ''k'', now = 600000, reply = FetchRejected,
            JSON_parse = (\<lambda>s. None), now_write = 600001 \<rparr>
          ''tv'' ''Electronics'' None) =
     Optimization (createFallbackOptimization ''tv'') \<and>
   snd (optimizeSearchWithGemini
          (Map.empty(searchCacheKey ''tv'' ''Electronics'' None \<mapsto>
             (Optimization \<lparr> optimized_search = Some ''smart tv'', optimization.reasoning = Some ''popular'' \<rparr>, 0)))
          \<lparr> geminiApiKey = Some ''k'', now = 600000, reply = FetchRejected,
            JSON_parse = (\<lambda>s. None), now_write = 600001 \<rparr>
          ''tv'' ''Electronics'' None)
       (searchCacheKey ''tv'' ''Electronics'' None) =
     Some (Optimization \<lparr> optimized_search = Some ''smart tv'', optimization.reasoning = Some ''popular'' \<rparr>, 0)"
proof -
  let ?cache = "Map.empty(getCacheKey ''TV'' ''c1'' None \<mapsto> (''stored'', 0::int))"
  let ?o = "Optimization \<lparr> optimized_search = Some ''smart tv'', optimization.reasoning = Some ''popular'' \<rparr>"
  let ?k = "searchCacheKey ''tv'' ''Electronics'' None"
  let ?g = "Map.empty(?k \<mapsto> (?o, 0::int))"
  let ?c = "\<lparr> geminiApiKey = Some ''k'', now = 600000, reply = FetchRejected,
            JSON_parse = (\<lambda>s. None :: optimization option), now_write = 600001 \<rparr>"
  have a: "?cache (getCacheKey ''TV'' ''c1'' None) = Some (''stored'', 0)" by simp
  have b: "?g ?k = Some (?o, 0)" by simp
  have miss: "optimizeSearchWithGemini (?g(?k := None)) ?c ''tv'' ''Electronics'' None =
      (Optimization (createFallbackOptimization ''tv''), Map.empty)"
    by (simp add: optimizeSearchWithGemini_def cacheLookup_def noCredential_def callGemini_def)
  note inst = cache_expiry_client_evicts_server_passes_over
    [where cache = ?cache and q = "''TV''" and categoryId = "''c1''" and userId = None
       and result = "''stored''" and timestamp = 0 and t = 300001 and gcache = ?g
       and query = "''tv''" and categoryName = "''Electronics''" and surveyData = None
       and cached = ?o and written = 0 and c = ?c]
  from inst a have "SearchCache_get ?cache 300001 ''TV'' ''c1'' None =
      (None, ?cache(getCacheKey ''TV'' ''c1'' None := None))"
    by simp
  moreover from inst b have
    "fst (optimizeSearchWithGemini ?g ?c ''tv'' ''Electronics'' None) =
       fst (optimizeSearchWithGemini (?g(?k := None)) ?c ''tv'' ''Electronics'' None) \<and>
     snd (optimizeSearchWithGemini ?g ?c ''tv'' ''Electronics'' None) ?k =
       (case snd (optimizeSearchWithGemini (?g(?k := None)) ?c ''tv'' ''Electronics'' None) ?k of
          None \<Rightarrow> Some (?o, 0)
        | Some fresh \<Rightarrow> Some fresh)"
    by simp
  ultimately show ?thesis
    unfolding miss by simp
qed

text \<open>
  The claim as written has the server lookup evict an expired entry. Here the entry was
  written at time 0 and is looked up at 600001, past the 10 minutes: it is a miss, and it is
  still in the cache when the optimizer returns.
\<close>

theorem server_lookup_keeps_expired_entry:
  "cacheLookup
     (Map.empty(searchCacheKey ''tv'' ''Electronics'' None \<mapsto>
        (Optimization \<lparr> optimized_search = Some ''smart tv'', optimization.reasoning = Some ''popular'' \<rparr>, 0)))
     (searchCacheKey ''tv'' ''Electronics'' None) 600001 = None \<and>
   snd (optimizeSearchWithGemini
          (Map.empty(searchCacheKey ''tv'' ''Electronics'' None \<mapsto>
             (Optimization \<lparr> optimized_search = Some ''smart tv'', optimization.reasoning = Some ''popular'' \<rparr>, 0)))
          \<lparr> geminiApiKey = Some ''k'', now = 600001, reply = FetchRejected,
            JSON_parse = (\<lambda>s. None), now_write = 608001 \<rparr>
          ''tv'' ''Electronics'' None)
       (searchCacheKey ''tv'' ''Electronics'' None) \<noteq> None"
  by (simp add: cacheLookup_def CACHE_DURATION_def optimizeSearchWithGemini_def noCredential_def
      callGemini_def)


section \<open>The ranker: what every path returns\<close>

lemma truncate_extend: "product.truncate (product.extend p x) = p"
  by (simp add: product.truncate_def product.extend_def)

lemma rank_extend: "rank (product.extend p (ranked_product.fields r s)) = r"
  by (simp add: product.extend_def ranked_product.fields_def)

lemma reasoning_extend: "ranked_product.reasoning (product.extend p (ranked_product.fields r s)) = s"
  by (simp add: product.extend_def ranked_product.fields_def)

lemma mapE_Inr_list_all2:
  "mapE f xs = Inr ys \<Longrightarrow> list_all2 (\<lambda>x y. f x = Inr y) xs ys"
  by (induction xs arbitrary: ys) (auto split: sum.splits)

lemma mapE_total:
  "(\<And>x. x \<in> set xs \<Longrightarrow> \<exists>y. f x = Inr y) \<Longrightarrow> \<exists>ys. mapE f xs = Inr ys"
proof (induction xs)
  case Nil
  show ?case by simp
next
  case (Cons x xs)
  from Cons.prems obtain y where "f x = Inr y" by auto
  moreover from Cons obtain ys where "mapE f xs = Inr ys" by auto
  ultimately show ?case by simp
qed

lemma findRanking_Some_mem: "findRanking rankings i = Inr (Some e) \<Longrightarrow> e \<in> set rankings"
  by (induction rankings i rule: findRanking.induct) (auto split: if_splits)

lemma findRanking_no_null:
  "NullEntry \<notin> set rankings \<Longrightarrow> \<exists>r. findRanking rankings i = Inr r"
  by (induction rankings i rule: findRanking.induct) auto

lemma findRanking_no_entry:
  "NullEntry \<notin> set rankings \<Longrightarrow> \<forall>e \<in> set rankings. position e \<noteq> Some (int i + 1) \<Longrightarrow>
     findRanking rankings i = Inr None"
  by (induction rankings i rule: findRanking.induct) auto

lemma applyRanking_Inr:
  "applyRanking rankings dflt (i, p) = Inr rp \<Longrightarrow>
     \<exists>ranking. findRanking rankings i = Inr ranking \<and>
       rp = product.extend p (ranked_product.fields (rankOr ranking i) (reasoningOr ranking dflt))"
  by (auto simp: applyRanking_def split: sum.splits)

lemma map_truncate_defaultRanking: "map product.truncate (defaultRanking label ps) = ps"
proof -
  have "map product.truncate (defaultRanking label ps) = map snd (enumerate 0 ps)"
    unfolding defaultRanking_def by (simp add: case_prod_unfold o_def truncate_extend)
  then show ?thesis by simp
qed

lemma map_rank_defaultRanking: "map rank (defaultRanking label ps) = map int [1..<Suc (length ps)]"
proof -
  have "map rank (defaultRanking label ps) = map ((\<lambda>i. int i + 1) \<circ> fst) (enumerate 0 ps)"
    unfolding defaultRanking_def by (simp add: case_prod_unfold comp_def rank_extend)
  also have "\<dots> = map (\<lambda>i. int i + 1) (map fst (enumerate 0 ps))"
    by (simp only: map_map)
  also have "\<dots> = map (\<lambda>i. int (Suc i)) [0..<length ps]"
    by simp
  also have "\<dots> = map int (map Suc [0..<length ps])"
    by (simp add: comp_def)
  also have "map Suc [0..<length ps] = [1..<Suc (length ps)]"
    by (simp only: map_Suc_upt One_nat_def)
  finally show ?thesis .
qed

lemma reasoning_defaultRanking: "list_all (\<lambda>rp. ranked_product.reasoning rp = label) (defaultRanking label ps)"
  by (auto simp: defaultRanking_def list_all_iff reasoning_extend)

lemma sorted_defaultRanking: "sorted (map rank (defaultRanking label ps))"
  unfolding map_rank_defaultRanking by (simp add: sorted_map sorted_wrt_iff_nth_less del: upt_Suc)

lemma mapE_applyRanking_truncate:
  "mapE (applyRanking rankings dflt) (enumerate n ps) = Inr out \<Longrightarrow> map product.truncate out = ps"
proof (induction ps arbitrary: n out)
  case Nil
  then show ?case by simp
next
  case (Cons p ps)
  then show ?case by (auto split: sum.splits dest!: applyRanking_Inr simp: truncate_extend)
qed

lemma rankOr_cases:
  "findRanking rankings i = Inr ranking \<Longrightarrow>
     rankOr ranking i = int i + 1 \<or>
     (\<exists>p r t. Entry p (Some r) t \<in> set rankings \<and> r \<noteq> 0 \<and> rankOr ranking i = r)"
  by (auto simp: rankOr_def split: option.splits ranking_entry.splits dest: findRanking_Some_mem)

lemma mapE_applyRanking_ranks:
  "mapE (applyRanking rankings dflt) (enumerate n ps) = Inr out \<Longrightarrow> rp \<in> set out \<Longrightarrow>
     (\<exists>i. n \<le> i \<and> i < n + length ps \<and> rank rp = int i + 1) \<or>
     (\<exists>p r t. Entry p (Some r) t \<in> set rankings \<and> r \<noteq> 0 \<and> rank rp = r)"
proof (induction ps arbitrary: n out)
  case Nil
  then show ?case by simp
next
  case (Cons p ps)
  from Cons.prems(1) obtain y ys where y: "applyRanking rankings dflt (n, p) = Inr y"
    and ys: "mapE (applyRanking rankings dflt) (enumerate (Suc n) ps) = Inr ys" and out: "out = y # ys"
    by (auto split: sum.splits)
  show ?case
  proof (cases "rp = y")
    case True
    from applyRanking_Inr [OF y] obtain ranking where f: "findRanking rankings n = Inr ranking"
      and "y = product.extend p (ranked_product.fields (rankOr ranking n) (reasoningOr ranking dflt))"
      by blast
    then have "rank rp = rankOr ranking n" using True by (simp add: rank_extend)
    with rankOr_cases [OF f] show ?thesis by auto
  next
    case False
    with Cons.prems(2) out have "rp \<in> set ys" by simp
    from Cons.IH [OF ys this] show ?thesis by auto
  qed
qed



lemma rankerCallFails_iff:
  "rankerCallFails c =
     isl (callGemini CHR ''['' CHR '']'' ''No ranking response'' ''No ranking array found'' c)"
  by (auto simp: rankerCallFails_def callGemini_def split: reply.splits option.splits)

lemma mapE_applyRanking_no_null:
  assumes "NullEntry \<notin> set rankings"
  shows "\<exists>out. mapE (applyRanking rankings dflt) xs = Inr out"
proof (rule mapE_total)
  fix x :: "nat \<times> product"
  obtain i p where x: "x = (i, p)" by (cases x)
  from findRanking_no_null [OF assms, of i] obtain r where "findRanking rankings i = Inr r" ..
  then show "\<exists>y. applyRanking rankings dflt x = Inr y"
    by (simp add: applyRanking_def x)
qed

lemma mapE_applyRanking_nth:
  "mapE (applyRanking rankings dflt) (enumerate n ps) = Inr out \<Longrightarrow> i < length ps \<Longrightarrow>
     applyRanking rankings dflt (n + i, ps ! i) = Inr (out ! i)"
proof -
  assume a: "mapE (applyRanking rankings dflt) (enumerate n ps) = Inr out" and i: "i < length ps"
  from mapE_Inr_list_all2 [OF a]
  have l: "list_all2 (\<lambda>x y. applyRanking rankings dflt x = Inr y) (enumerate n ps) out" .
  from i have "i < length (enumerate n ps)" by simp
  from list_all2_nthD [OF l this] i show ?thesis
    by (simp add: nth_enumerate_eq)
qed

lemma ranker_miss_cases:
  assumes "cacheLookup cache (rankCacheKey query (take 20 products) surveyData) (now c) = None"
  shows "fst (rankProductsWithGemini cache c query products surveyData) =
     (if noCredential c then Inr (defaultRanking ''Default ranking (AI unavailable)'' products)
      else case callGemini CHR ''['' CHR '']'' ''No ranking response'' ''No ranking array found'' c of
             Inl message \<Rightarrow> Inr (defaultRanking ''Default ranking (error)'' products)
           | Inr rankings \<Rightarrow>
               (case mapE (applyRanking rankings ''AI ranked'') (enumerate 0 products) of
                  Inl e \<Rightarrow> Inr (defaultRanking ''Default ranking (error)'' products)
                | Inr rankedProducts \<Rightarrow> Inr (sort_key rank rankedProducts)))"
  using assms by (simp add: rankProductsWithGemini_def Let_def split: sum.splits)

lemma ranker_hit_cases:
  assumes "cacheLookup cache (rankCacheKey query (take 20 products) surveyData) (now c) = Some cached"
  shows "rankProductsWithGemini cache c query products surveyData =
     (case cached of
        Rankings cachedRankings \<Rightarrow>
          (mapE (applyRanking cachedRankings ''Cached ranking'') (enumerate 0 products), cache)
      | Optimization obj \<Rightarrow> (Inl TypeError, cache))"
  using assms by (simp add: rankProductsWithGemini_def Let_def split: gemini_result.splits)


lemma ranker_returns_same_products:
  assumes r: "fst (rankProductsWithGemini cache c query products surveyData) = Inr out"
  shows "length out = length products \<and> mset (map product.truncate out) = mset products"
proof -
  let ?k = "rankCacheKey query (take 20 products) surveyData"
  have m: "mset (map product.truncate out) = mset products"
  proof (cases "cacheLookup cache ?k (now c)")
    case None
    from r have "map product.truncate out = products \<or>
        (\<exists>rankedProducts. out = sort_key rank rankedProducts \<and>
           map product.truncate rankedProducts = products)"
      unfolding ranker_miss_cases [OF None]
      by (auto simp: map_truncate_defaultRanking split: if_splits sum.splits
          dest!: mapE_applyRanking_truncate)
    then show ?thesis
    proof
      assume "map product.truncate out = products"
      then show ?thesis by simp
    next
      assume "\<exists>rankedProducts. out = sort_key rank rankedProducts \<and>
           map product.truncate rankedProducts = products"
      then obtain rankedProducts where o: "out = sort_key rank rankedProducts"
        and t: "map product.truncate rankedProducts = products" by blast
      have "mset (map product.truncate out) = mset (map product.truncate rankedProducts)"
        unfolding o by simp
      with t show ?thesis by simp
    qed
  next
    case (Some cached)
    from r have "map product.truncate out = products"
      unfolding ranker_hit_cases [OF Some]
      by (auto split: gemini_result.splits dest: mapE_applyRanking_truncate)
    then show ?thesis by simp
  qed
  then have "size (mset (map product.truncate out)) = size (mset products)"
    by (rule arg_cong)
  then have "length out = length products" by simp
  with m show ?thesis by blast
qed

lemma ranker_keeps_input_order_unless_sorted:
  assumes r: "fst (rankProductsWithGemini cache c query products surveyData) = Inr out"
    and "cacheLookup cache (rankCacheKey query (take 20 products) surveyData) (now c) \<noteq> None
         \<or> noCredential c \<or> rankerCallFails c"
  shows "map product.truncate out = products"
proof (cases "cacheLookup cache (rankCacheKey query (take 20 products) surveyData) (now c)")
  case None
  with assms(2) have "noCredential c \<or> rankerCallFails c" by simp
  with r show ?thesis
    unfolding ranker_miss_cases [OF None]
    by (auto simp: map_truncate_defaultRanking rankerCallFails_iff isl_def split: if_splits)
next
  case (Some cached)
  from r show ?thesis
    unfolding ranker_hit_cases [OF Some]
    by (auto split: gemini_result.splits dest: mapE_applyRanking_truncate)
qed


lemma ranker_miss_failure:
  assumes "cacheLookup cache (rankCacheKey query (take 20 products) surveyData) (now c) = None"
  shows "noCredential c \<Longrightarrow>
           rankProductsWithGemini cache c query products surveyData =
             (Inr (defaultRanking ''Default ranking (AI unavailable)'' products), cache)"
    and "\<not> noCredential c \<Longrightarrow> rankerCallFails c \<Longrightarrow>
           rankProductsWithGemini cache c query products surveyData =
             (Inr (defaultRanking ''Default ranking (error)'' products), cache)"
  using assms
  by (auto simp: rankProductsWithGemini_def Let_def rankerCallFails_iff isl_def)

lemma findRanking_null_without_entry:
  "NullEntry \<in> set rankings \<Longrightarrow>
   \<forall>e \<in> set rankings. e \<noteq> NullEntry \<longrightarrow> position e \<noteq> Some (int i + 1) \<Longrightarrow>
     findRanking rankings i = Inl TypeError"
proof (induction rankings)
  case Nil
  then show ?case by simp
next
  case (Cons r rs)
  show ?case
  proof (cases r)
    case NullEntry
    then show ?thesis by simp
  next
    case (Entry p rk t)
    with Cons.prems have "NullEntry \<in> set rs" and "p \<noteq> Some (int i + 1)"
      and "\<forall>e \<in> set rs. e \<noteq> NullEntry \<longrightarrow> position e \<noteq> Some (int i + 1)"
      by auto
    with Cons.IH Entry show ?thesis by simp
  qed
qed

lemma mapE_Inl_mem:
  "x \<in> set xs \<Longrightarrow> f x = Inl e \<Longrightarrow> \<exists>e'. mapE f xs = Inl e'"
  by (induction xs) (auto split: sum.splits)

lemma ranker_error_when_lookup_throws:
  assumes miss: "cacheLookup cache (rankCacheKey query (take 20 products) surveyData) (now c) = None"
    and nc: "\<not> noCredential c"
    and call: "callGemini CHR ''['' CHR '']'' ''No ranking response'' ''No ranking array found'' c =
                 Inr rankings"
    and j: "j < length products"
    and throws: "findRanking rankings j = Inl e"
  shows "fst (rankProductsWithGemini cache c query products surveyData) =
           Inr (defaultRanking ''Default ranking (error)'' products)"
proof -
  from j have n: "enumerate 0 products ! j = (j, products ! j)"
    by (simp add: nth_enumerate_eq)
  from j have "j < length (enumerate 0 products)" by simp
  then have "enumerate 0 products ! j \<in> set (enumerate 0 products)"
    by (rule nth_mem)
  then have m: "(j, products ! j) \<in> set (enumerate 0 products)"
    by (simp only: n)
  from throws have a: "applyRanking rankings ''AI ranked'' (j, products ! j) = Inl e"
    by (simp add: applyRanking_def)
  from mapE_Inl_mem
    [where f = "applyRanking rankings ''AI ranked''" and x = "(j, products ! j)"
       and xs = "enumerate 0 products" and e = e, OF m a]
  obtain e' where
    "mapE (applyRanking rankings ''AI ranked'') (enumerate 0 products) = Inl e'" ..
  with nc call show ?thesis
    unfolding ranker_miss_cases [OF miss] by simp
qed

text \<open>
  Claim C6, as the code has it. Past the cache check: without a credential the ranker returns
  the default ranking with the reasoning 'Default ranking (AI unavailable)', and when the
  call fails the default ranking with 'Default ranking (error)'; a default ranking is the
  input products in their order, the product at 1-based position k with rank k. When the
  call succeeds and an array is parsed, take a product for whose position the array has no
  entry. If no element of the array is \<^verbatim>\<open>null\<close>, the product is returned with its 1-based
  position as rank and the reasoning 'AI ranked'. If an element is \<^verbatim>\<open>null\<close>, the search for
  the product's entry reads it and throws, the exception is caught like a failed call, and
  the ranker returns the default ranking with 'Default ranking (error)' for every product.
  The same default ranking is returned whenever the search for any product's entry throws.
\<close>

theorem ranker_default_rankings:
  assumes miss: "cacheLookup cache (rankCacheKey query (take 20 products) surveyData) (now c) = None"
  shows
   "(noCredential c \<longrightarrow>
       rankProductsWithGemini cache c query products surveyData =
         (Inr (defaultRanking ''Default ranking (AI unavailable)'' products), cache)) \<and>
    (\<not> noCredential c \<and> rankerCallFails c \<longrightarrow>
       rankProductsWithGemini cache c query products surveyData =
         (Inr (defaultRanking ''Default ranking (error)'' products), cache)) \<and>
    map product.truncate (defaultRanking label products) = products \<and>
    map rank (defaultRanking label products) = map int [1..<Suc (length products)] \<and>
    list_all (\<lambda>rp. ranked_product.reasoning rp = label) (defaultRanking label products) \<and>
    (\<not> noCredential c \<and>
     callGemini CHR ''['' CHR '']'' ''No ranking response'' ''No ranking array found'' c = Inr rankings \<and>
     i < length products \<and>
     (\<forall>e \<in> set rankings. e \<noteq> NullEntry \<longrightarrow> position e \<noteq> Some (int i + 1)) \<longrightarrow>
       (if NullEntry \<in> set rankings
        then fst (rankProductsWithGemini cache c query products surveyData) =
               Inr (defaultRanking ''Default ranking (error)'' products)
        else (\<exists>out. fst (rankProductsWithGemini cache c query products surveyData) = Inr out \<and>
                product.extend (products ! i) (ranked_product.fields (int i + 1) ''AI ranked'')
                  \<in> set out))) \<and>
    (\<not> noCredential c \<and>
     callGemini CHR ''['' CHR '']'' ''No ranking response'' ''No ranking array found'' c = Inr rankings \<and>
     j < length products \<and> findRanking rankings j = Inl TypeError \<longrightarrow>
       fst (rankProductsWithGemini cache c query products surveyData) =
         Inr (defaultRanking ''Default ranking (error)'' products))"
proof -
  let ?call = "callGemini CHR ''['' CHR '']'' ''No ranking response'' ''No ranking array found'' c"
  have success: "\<exists>out. fst (rankProductsWithGemini cache c query products surveyData) = Inr out \<and>
          product.extend (products ! i) (ranked_product.fields (int i + 1) ''AI ranked'') \<in> set out"
    if nc: "\<not> noCredential c" and call: "?call = Inr rankings"
      and nn: "NullEntry \<notin> set rankings" and i: "i < length products"
      and none: "\<forall>e \<in> set rankings. e \<noteq> NullEntry \<longrightarrow> position e \<noteq> Some (int i + 1)"
  proof -
    from mapE_applyRanking_no_null [OF nn] obtain rps where
      rps: "mapE (applyRanking rankings ''AI ranked'') (enumerate 0 products) = Inr rps" by blast
    from nc call rps have out: "fst (rankProductsWithGemini cache c query products surveyData) =
        Inr (sort_key rank rps)"
      unfolding ranker_miss_cases [OF miss] by simp
    from mapE_Inr_list_all2 [OF rps] have len: "length rps = length products"
      by (auto dest: list_all2_lengthD)
    from mapE_applyRanking_nth [OF rps i]
    have "applyRanking rankings ''AI ranked'' (i, products ! i) = Inr (rps ! i)" by simp
    moreover have "position e \<noteq> Some (int i + 1)" if m: "e \<in> set rankings" for e
    proof -
      have ne: "e \<noteq> NullEntry"
      proof
        assume "e = NullEntry"
        with m have "NullEntry \<in> set rankings" by simp
        with nn show False by (rule notE)
      qed
      from none m have "e \<noteq> NullEntry \<longrightarrow> position e \<noteq> Some (int i + 1)"
        by (rule bspec)
      from this ne show ?thesis by (rule mp)
    qed
    then have "\<forall>e \<in> set rankings. position e \<noteq> Some (int i + 1)"
      by (intro ballI)
    with nn have "findRanking rankings i = Inr None"
      by (rule findRanking_no_entry)
    ultimately have "rps ! i =
        product.extend (products ! i) (ranked_product.fields (int i + 1) ''AI ranked'')"
      by (simp add: applyRanking_def rankOr_def reasoningOr_def)
    moreover from i len have "rps ! i \<in> set (sort_key rank rps)" by simp
    ultimately show ?thesis using out by auto
  qed
  have null: "fst (rankProductsWithGemini cache c query products surveyData) =
               Inr (defaultRanking ''Default ranking (error)'' products)"
    if nc: "\<not> noCredential c" and call: "?call = Inr rankings"
      and n: "NullEntry \<in> set rankings" and i: "i < length products"
      and none: "\<forall>e \<in> set rankings. e \<noteq> NullEntry \<longrightarrow> position e \<noteq> Some (int i + 1)"
    using miss nc call i findRanking_null_without_entry [OF n none]
    by (rule ranker_error_when_lookup_throws)
  have throws: "fst (rankProductsWithGemini cache c query products surveyData) =
               Inr (defaultRanking ''Default ranking (error)'' products)"
    if "\<not> noCredential c" and "?call = Inr rankings" and "j < length products"
      and "findRanking rankings j = Inl TypeError"
    using miss that by (rule ranker_error_when_lookup_throws)
  have last: "(\<not> noCredential c \<and> ?call = Inr rankings \<and> i < length products \<and>
     (\<forall>e \<in> set rankings. e \<noteq> NullEntry \<longrightarrow> position e \<noteq> Some (int i + 1)) \<longrightarrow>
       (if NullEntry \<in> set rankings
        then fst (rankProductsWithGemini cache c query products surveyData) =
               Inr (defaultRanking ''Default ranking (error)'' products)
        else (\<exists>out. fst (rankProductsWithGemini cache c query products surveyData) = Inr out \<and>
                product.extend (products ! i) (ranked_product.fields (int i + 1) ''AI ranked'')
                  \<in> set out)))"
  proof (intro impI, elim conjE)
    assume nc: "\<not> noCredential c" and call: "?call = Inr rankings" and i: "i < length products"
      and none: "\<forall>e \<in> set rankings. e \<noteq> NullEntry \<longrightarrow> position e \<noteq> Some (int i + 1)"
    show "if NullEntry \<in> set rankings
        then fst (rankProductsWithGemini cache c query products surveyData) =
               Inr (defaultRanking ''Default ranking (error)'' products)
        else (\<exists>out. fst (rankProductsWithGemini cache c query products surveyData) = Inr out \<and>
                product.extend (products ! i) (ranked_product.fields (int i + 1) ''AI ranked'')
                  \<in> set out)"
    proof (cases "NullEntry \<in> set rankings")
      case True
      from null [OF nc call True i none] True show ?thesis by (simp only: if_True)
    next
      case False
      from success [OF nc call False i none] False show ?thesis by (simp only: if_False)
    qed
  qed
  have thrown: "\<not> noCredential c \<and> ?call = Inr rankings \<and> j < length products \<and>
      findRanking rankings j = Inl TypeError \<longrightarrow>
        fst (rankProductsWithGemini cache c query products surveyData) =
          Inr (defaultRanking ''Default ranking (error)'' products)"
  proof (intro impI, elim conjE)
    assume "\<not> noCredential c" and "?call = Inr rankings" and "j < length products"
      and "findRanking rankings j = Inl TypeError"
    then show "fst (rankProductsWithGemini cache c query products surveyData) =
          Inr (defaultRanking ''Default ranking (error)'' products)"
      by (rule throws)
  qed
  have skipped: "noCredential c \<longrightarrow>
       rankProductsWithGemini cache c query products surveyData =
         (Inr (defaultRanking ''Default ranking (AI unavailable)'' products), cache)"
    using ranker_miss_failure(1) [OF miss] by (intro impI)
  have failed: "\<not> noCredential c \<and> rankerCallFails c \<longrightarrow>
       rankProductsWithGemini cache c query products surveyData =
         (Inr (defaultRanking ''Default ranking (error)'' products), cache)"
    using ranker_miss_failure(2) [OF miss] by (intro impI, elim conjE)
  note shape = map_truncate_defaultRanking [of label products]
    map_rank_defaultRanking [of label products] reasoning_defaultRanking [of label products]
  from skipped failed shape last thrown show ?thesis
    by (intro conjI)
qed

lemma ranks_in_bounds:
  assumes m: "mapE (applyRanking rankings dflt) (enumerate 0 ps) = Inr rps"
    and w: "suppliedRanksWithin 1 hi rankings" and n: "int (length ps) \<le> hi"
  shows "list_all (\<lambda>rp. 1 \<le> rank rp \<and> rank rp \<le> hi) rps"
proof -
  have "1 \<le> rank rp \<and> rank rp \<le> hi" if "rp \<in> set rps" for rp
  proof -
    from mapE_applyRanking_ranks [OF m that]
    consider i where "i < length ps" "rank rp = int i + 1"
      | p r t where "Entry p (Some r) t \<in> set rankings" "r \<noteq> 0" "rank rp = r"
      by auto
    then show ?thesis
    proof cases
      case 1
      with n show ?thesis by simp
    next
      case 2
      from w 2(1) have "r = 0 \<or> (1 \<le> r \<and> r \<le> hi)"
        by (auto simp: suppliedRanksWithin_def list_all_iff)
      with 2 show ?thesis by simp
    qed
  qed
  then show ?thesis by (simp add: list_all_iff)
qed

lemma default_ranks_in_bounds:
  "int (length ps) \<le> hi \<Longrightarrow> list_all (\<lambda>rp. 1 \<le> rank rp \<and> rank rp \<le> hi) (defaultRanking label ps)"
proof -
  assume n: "int (length ps) \<le> hi"
  have "\<forall>r \<in> set (map rank (defaultRanking label ps)). 1 \<le> r \<and> r \<le> hi"
    unfolding map_rank_defaultRanking using n by auto
  then show ?thesis by (simp add: list_all_iff)
qed

text \<open>
  Claim C1, as the code has it. With no profile, whenever the ranker returns: past the cache
  check the list is sorted ascending by rank; when the call is skipped or fails the ranks
  are exactly 1, ..., n; and on the success path and on a cache hit every rank is the
  product's 1-based position or a non-zero rank taken from the response, so that all ranks
  lie between 1 and 2n when the ranks supplied by the response do.
\<close>

theorem ranker_sorted_and_ranks_bounded:
  assumes r: "fst (rankProductsWithGemini cache c query products None) = Inr out"
  shows
   "(cacheLookup cache (rankCacheKey query (take 20 products) None) (now c) = None \<longrightarrow>
       sorted (map rank out)) \<and>
    (cacheLookup cache (rankCacheKey query (take 20 products) None) (now c) = None \<and>
     (noCredential c \<or> rankerCallFails c) \<longrightarrow>
       map rank out = map int [1..<Suc (length products)]) \<and>
    ((cacheLookup cache (rankCacheKey query (take 20 products) None) (now c) = None \<and>
      \<not> noCredential c \<and>
      callGemini CHR ''['' CHR '']'' ''No ranking response'' ''No ranking array found'' c = Inr rankings
      \<or> cacheLookup cache (rankCacheKey query (take 20 products) None) (now c) = Some (Rankings rankings)) \<and>
     suppliedRanksWithin 1 (2 * int (length products)) rankings \<longrightarrow>
       list_all (\<lambda>rp. 1 \<le> rank rp \<and> rank rp \<le> 2 * int (length products)) out)"
proof -
  let ?k = "rankCacheKey query (take 20 products) None"
  let ?call = "callGemini CHR ''['' CHR '']'' ''No ranking response'' ''No ranking array found'' c"
  have n: "int (length products) \<le> 2 * int (length products)" by simp
  have srt: "sorted (map rank out)" if miss: "cacheLookup cache ?k (now c) = None"
    using r unfolding ranker_miss_cases [OF miss]
    by (auto simp: sorted_defaultRanking split: if_splits sum.splits)
  have dflt: "map rank out = map int [1..<Suc (length products)]"
    if miss: "cacheLookup cache ?k (now c) = None" and f: "noCredential c \<or> rankerCallFails c"
  proof -
    from r f ranker_miss_failure [OF miss] obtain label where "out = defaultRanking label products"
      by (cases "noCredential c") auto
    then show ?thesis by (simp only: map_rank_defaultRanking)
  qed
  have fresh: "list_all (\<lambda>rp. 1 \<le> rank rp \<and> rank rp \<le> 2 * int (length products)) out"
    if miss: "cacheLookup cache ?k (now c) = None" and nc: "\<not> noCredential c"
      and call: "?call = Inr rankings"
      and w: "suppliedRanksWithin 1 (2 * int (length products)) rankings"
  proof (cases "mapE (applyRanking rankings ''AI ranked'') (enumerate 0 products)")
    case (Inl e)
    with r nc call have "out = defaultRanking ''Default ranking (error)'' products"
      unfolding ranker_miss_cases [OF miss] by simp
    with default_ranks_in_bounds [OF n] show ?thesis by simp
  next
    case (Inr rps)
    with r nc call have "out = sort_key rank rps"
      unfolding ranker_miss_cases [OF miss] by simp
    with ranks_in_bounds [OF Inr w n] show ?thesis by (simp add: list_all_iff)
  qed
  have hit: "list_all (\<lambda>rp. 1 \<le> rank rp \<and> rank rp \<le> 2 * int (length products)) out"
    if h: "cacheLookup cache ?k (now c) = Some (Rankings rankings)"
      and w: "suppliedRanksWithin 1 (2 * int (length products)) rankings"
  proof -
    from r have "mapE (applyRanking rankings ''Cached ranking'') (enumerate 0 products) = Inr out"
      unfolding ranker_hit_cases [OF h] by simp
    from ranks_in_bounds [OF this w n] show ?thesis .
  qed
  from srt dflt fresh hit show ?thesis by blast
qed


lemmas ranker_eval =
  rankProductsWithGemini_def cacheLookup_def CACHE_DURATION_def noCredential_def callGemini_def
  matchSpan_def applyRanking_def rankOr_def reasoningOr_def defaultRanking_def
  rank_extend answering_def timingOut_def unconfigured_def


theorem ranker_default_rankings_witness:
  "rankProductsWithGemini Map.empty unconfigured ''earbuds'' [earbudsA, earbudsB] None =
     (Inr [product.extend earbudsA (ranked_product.fields 1 ''Default ranking (AI unavailable)''),
           product.extend earbudsB (ranked_product.fields 2 ''Default ranking (AI unavailable)'')],
      Map.empty) \<and>
   rankProductsWithGemini Map.empty timingOut ''earbuds'' [earbudsA, earbudsB] None =
     (Inr [product.extend earbudsA (ranked_product.fields 1 ''Default ranking (error)''),
           product.extend earbudsB (ranked_product.fields 2 ''Default ranking (error)'')],
      Map.empty) \<and>
   (\<exists>out. fst (rankProductsWithGemini Map.empty
                  (answering [Entry (Some 1) (Some 1) (Some ''best value'')])
                  ''earbuds'' [earbudsA, earbudsB] None) = Inr out \<and>
      product.extend earbudsB (ranked_product.fields 2 ''AI ranked'') \<in> set out) \<and>
   fst (rankProductsWithGemini Map.empty
          (answering [Entry (Some 1) (Some 1) (Some ''best value''), NullEntry])
          ''earbuds'' [earbudsA, earbudsB] None) =
     Inr [product.extend earbudsA (ranked_product.fields 1 ''Default ranking (error)''),
          product.extend earbudsB (ranked_product.fields 2 ''Default ranking (error)'')]"
proof -
  let ?ps = "[earbudsA, earbudsB]"
  let ?k = "rankCacheKey ''earbuds'' (take 20 ?ps) None"
  let ?rs = "[Entry (Some 1) (Some 1) (Some ''best value'')]"
  let ?ns = "[Entry (Some 1) (Some 1) (Some ''best value''), NullEntry]"
  let ?ok = "answering ?rs"
  let ?nl = "answering ?ns"
  have miss: "cacheLookup Map.empty ?k t = None" for t
    by (simp add: cacheLookup_def)
  have nocred: "noCredential (unconfigured :: ranking_entry list call)"
    by (simp add: noCredential_def unconfigured_def)
  have fails: "\<not> noCredential (timingOut :: ranking_entry list call) \<and> rankerCallFails timingOut"
    by (simp add: noCredential_def rankerCallFails_def timingOut_def)
  have ok: "\<not> noCredential ?ok \<and>
      callGemini CHR ''['' CHR '']'' ''No ranking response'' ''No ranking array found'' ?ok = Inr ?rs \<and>
      (1::nat) < length ?ps \<and>
      (\<forall>e \<in> set ?rs. e \<noteq> NullEntry \<longrightarrow> position e \<noteq> Some (int 1 + 1))"
    by (simp add: noCredential_def callGemini_def matchSpan_def answering_def)
  have nl: "\<not> noCredential ?nl \<and>
      callGemini CHR ''['' CHR '']'' ''No ranking response'' ''No ranking array found'' ?nl = Inr ?ns \<and>
      (1::nat) < length ?ps \<and>
      (\<forall>e \<in> set ?ns. e \<noteq> NullEntry \<longrightarrow> position e \<noteq> Some (int 1 + 1))"
    by (simp add: noCredential_def callGemini_def matchSpan_def answering_def)
  have d: "defaultRanking label ?ps =
      [product.extend earbudsA (ranked_product.fields 1 label),
       product.extend earbudsB (ranked_product.fields 2 label)]" for label
    by (simp add: defaultRanking_def)
  from ranker_default_rankings [OF miss, where c = unconfigured] nocred
  have "rankProductsWithGemini Map.empty unconfigured ''earbuds'' ?ps None =
      (Inr (defaultRanking ''Default ranking (AI unavailable)'' ?ps), Map.empty)"
    by blast
  moreover
  from ranker_default_rankings [OF miss, where c = timingOut] fails
  have "rankProductsWithGemini Map.empty timingOut ''earbuds'' ?ps None =
      (Inr (defaultRanking ''Default ranking (error)'' ?ps), Map.empty)"
    by blast
  moreover
  have "if NullEntry \<in> set ?rs
      then fst (rankProductsWithGemini Map.empty ?ok ''earbuds'' ?ps None) =
             Inr (defaultRanking ''Default ranking (error)'' ?ps)
      else (\<exists>out. fst (rankProductsWithGemini Map.empty ?ok ''earbuds'' ?ps None) = Inr out \<and>
              product.extend (?ps ! 1) (ranked_product.fields (int 1 + 1) ''AI ranked'') \<in> set out)"
    by (rule ranker_default_rankings
          [OF miss, where c = ?ok and i = 1 and rankings = ?rs,
           THEN conjunct2, THEN conjunct2, THEN conjunct2, THEN conjunct2, THEN conjunct2,
           THEN conjunct1, THEN mp])
       (rule ok)
  then have "\<exists>out. fst (rankProductsWithGemini Map.empty ?ok ''earbuds'' ?ps None) = Inr out \<and>
      product.extend (?ps ! 1) (ranked_product.fields (int 1 + 1) ''AI ranked'') \<in> set out"
    by simp
  moreover
  have "if NullEntry \<in> set ?ns
      then fst (rankProductsWithGemini Map.empty ?nl ''earbuds'' ?ps None) =
             Inr (defaultRanking ''Default ranking (error)'' ?ps)
      else (\<exists>out. fst (rankProductsWithGemini Map.empty ?nl ''earbuds'' ?ps None) = Inr out \<and>
              product.extend (?ps ! 1) (ranked_product.fields (int 1 + 1) ''AI ranked'') \<in> set out)"
    by (rule ranker_default_rankings
          [OF miss, where c = ?nl and i = 1 and rankings = ?ns,
           THEN conjunct2, THEN conjunct2, THEN conjunct2, THEN conjunct2, THEN conjunct2,
           THEN conjunct1, THEN mp])
       (rule nl)
  then have "fst (rankProductsWithGemini Map.empty ?nl ''earbuds'' ?ps None) =
      Inr (defaultRanking ''Default ranking (error)'' ?ps)"
    by simp
  ultimately show ?thesis
    by (simp add: d)
qed

text \<open>
  The claim as written gives 'AI ranked' to every product without an entry once the call has
  succeeded. Here the service answers with an array that parses, holding \<^verbatim>\<open>null\<close> and an entry
  for position 1: none of the listed failures has occurred, the second product has no entry,
  and both products come back with 'Default ranking (error)'.
\<close>

theorem ranker_null_element_gives_error_ranking:
  "\<not> noCredential (answering [NullEntry, Entry (Some 1) (Some 1) (Some ''best value'')]) \<and>
   \<not> rankerCallFails (answering [NullEntry, Entry (Some 1) (Some 1) (Some ''best value'')]) \<and>
   callGemini CHR ''['' CHR '']'' ''No ranking response'' ''No ranking array found''
       (answering [NullEntry, Entry (Some 1) (Some 1) (Some ''best value'')]) =
     Inr [NullEntry, Entry (Some 1) (Some 1) (Some ''best value'')] \<and>
   fst (rankProductsWithGemini Map.empty
          (answering [NullEntry, Entry (Some 1) (Some 1) (Some ''best value'')])
          ''earbuds'' [earbudsA, earbudsB] None) =
     Inr [product.extend earbudsA (ranked_product.fields 1 ''Default ranking (error)''),
          product.extend earbudsB (ranked_product.fields 2 ''Default ranking (error)'')]"
  by (simp add: ranker_eval rankerCallFails_def)

theorem ranker_sorted_and_ranks_bounded_witness:
  "fst (rankProductsWithGemini Map.empty
          (answering [Entry (Some 1) (Some 2) (Some ''pricier''), Entry (Some 2) (Some 1) None])
          ''earbuds'' [earbudsB, earbudsA] None) =
     Inr [product.extend earbudsA (ranked_product.fields 1 ''AI ranked''),
          product.extend earbudsB (ranked_product.fields 2 ''pricier'')] \<and>
   suppliedRanksWithin 1 (2 * int (length [earbudsB, earbudsA]))
     [Entry (Some 1) (Some 2) (Some ''pricier''), Entry (Some 2) (Some 1) None] \<and>
   sorted (map rank [product.extend earbudsA (ranked_product.fields 1 ''AI ranked''),
                     product.extend earbudsB (ranked_product.fields 2 ''pricier'')]) \<and>
   list_all (\<lambda>rp. 1 \<le> rank rp \<and> rank rp \<le> 2 * int (length [earbudsB, earbudsA]))
     [product.extend earbudsA (ranked_product.fields 1 ''AI ranked''),
      product.extend earbudsB (ranked_product.fields 2 ''pricier'')] \<and>
   fst (rankProductsWithGemini Map.empty timingOut ''earbuds'' [earbudsB, earbudsA] None) =
     Inr (defaultRanking ''Default ranking (error)'' [earbudsB, earbudsA]) \<and>
   map rank (defaultRanking ''Default ranking (error)'' [earbudsB, earbudsA]) = [1, 2]"
proof -
  let ?rs = "[Entry (Some 1) (Some 2) (Some ''pricier''), Entry (Some 2) (Some 1) None]"
  let ?c = "answering ?rs"
  let ?ps = "[earbudsB, earbudsA]"
  let ?k = "rankCacheKey ''earbuds'' (take 20 ?ps) None"
  let ?out = "[product.extend earbudsA (ranked_product.fields 1 ''AI ranked''),
               product.extend earbudsB (ranked_product.fields 2 ''pricier'')]"
  have miss: "cacheLookup Map.empty ?k t = None" for t
    by (simp add: cacheLookup_def)
  have run: "fst (rankProductsWithGemini Map.empty ?c ''earbuds'' ?ps None) = Inr ?out"
    by (simp add: ranker_eval)
  have call: "\<not> noCredential ?c \<and>
      callGemini CHR ''['' CHR '']'' ''No ranking response'' ''No ranking array found'' ?c = Inr ?rs"
    by (simp add: noCredential_def callGemini_def matchSpan_def answering_def)
  have within: "suppliedRanksWithin 1 (2 * int (length ?ps)) ?rs"
    by (simp add: suppliedRanksWithin_def)
  note inst = ranker_sorted_and_ranks_bounded [OF run, where rankings = ?rs]
  have a1: "sorted (map rank ?out)"
    by (rule inst [THEN conjunct1, THEN mp]) (rule miss)
  have a2: "list_all (\<lambda>rp. 1 \<le> rank rp \<and> rank rp \<le> 2 * int (length ?ps)) ?out"
    by (rule inst [THEN conjunct2, THEN conjunct2, THEN mp]) (simp only: miss call within simp_thms)
  have run2: "fst (rankProductsWithGemini Map.empty timingOut ''earbuds'' ?ps None) =
      Inr (defaultRanking ''Default ranking (error)'' ?ps)"
    by (simp add: ranker_eval)
  have fails: "rankerCallFails (timingOut :: ranking_entry list call)"
    by (simp add: rankerCallFails_def timingOut_def)
  have "map rank (defaultRanking ''Default ranking (error)'' ?ps) = map int [1..<Suc (length ?ps)]"
    by (rule ranker_sorted_and_ranks_bounded [OF run2, THEN conjunct2, THEN conjunct1, THEN mp])
      (simp only: miss fails simp_thms)
  then have b: "map rank (defaultRanking ''Default ranking (error)'' ?ps) = [1, 2]"
    by (simp add: upt_rec)
  from run within a1 a2 run2 b show ?thesis by (intro conjI)
qed

text \<open>
  The claim as written fails twice. After a successful call the code keeps any non-zero rank
  of the response: a response that ranks the only product -3 gives a rank that is not
  positive. And a cache hit replays the cached ranks without sorting: with cached ranks 2
  and 1 for positions 1 and 2 the returned list is not sorted by rank.
\<close>

theorem ranker_rank_not_positive_and_cache_hit_unsorted:
  "fst (rankProductsWithGemini Map.empty (answering [Entry (Some 1) (Some (- 3)) None])
          ''earbuds'' [earbudsA] None) =
     Inr [product.extend earbudsA (ranked_product.fields (- 3) ''AI ranked'')] \<and>
   \<not> list_all (\<lambda>rp. 0 < rank rp)
        [product.extend earbudsA (ranked_product.fields (- 3) ''AI ranked'')] \<and>
   fst (rankProductsWithGemini
          (Map.empty(rankCacheKey ''earbuds'' (take 20 [earbudsB, earbudsA]) None \<mapsto>
             (Rankings [Entry (Some 1) (Some 2) (Some ''pricier''), Entry (Some 2) (Some 1) None], 0)))
          timingOut ''earbuds'' [earbudsB, earbudsA] None) =
     Inr [product.extend earbudsB (ranked_product.fields 2 ''pricier''),
          product.extend earbudsA (ranked_product.fields 1 ''Cached ranking'')] \<and>
   \<not> sorted (map rank [product.extend earbudsB (ranked_product.fields 2 ''pricier''),
                       product.extend earbudsA (ranked_product.fields 1 ''Cached ranking'')])"
  by (simp add: ranker_eval)


section \<open>The search handler: when the optimizer is run again\<close>

lemma fallback_reasoning:
  "reasoningOf (Optimization (createFallbackOptimization q)) =
     Some ''Direct search (AI optimization unavailable)''"
  "str_includes ''Direct search (AI optimization unavailable)'' ''unavailable''"
  by (simp_all add: reasoningOf_def createFallbackOptimization_def)

lemma processProducts_sampleListings: "processProducts (Some sampleListings) = [earbudsA, earbudsB]"
  by (simp add: processProducts_def normalizeProduct_def orElse_def priceCurrency_def price_defs
      earbudsA_def earbudsB_def sampleListings_def)

lemma length_defaultRanking: "length (defaultRanking label ps) = length ps"
  by (simp add: defaultRanking_def)

lemmas search_eval = length_defaultRanking
  search_def finalOptimization_def searchWith_def hasGenderAndBudget_def reasoningOf_def
  optimizedSearchOf_def optimizeSearchWithGemini_def createFallbackOptimization_def
  searchCacheKey_def rankCacheKey_def fieldOrNone_def Let_def processProducts_sampleListings
  sampleStore_def sampleCatalog_def degraded_def commuter_def resurveyed_def
  rankProductsWithGemini_def cacheLookup_def CACHE_DURATION_def noCredential_def callGemini_def
  matchSpan_def timingOut_def unconfigured_def answering_def

text \<open>
  Claim C8, as the code has it. For a valid request: when no profile was found, or the profile
  found lacks gender or budget, the speculative result is used unchanged for the catalog
  search and the response. When the profile found has a non-empty gender and a non-empty
  budget and the speculative result carries a reasoning text, the optimizer is re-run with
  the profile exactly when that text contains 'unavailable', which the fallback's reasoning
  does, and the catalog search and the response then use the re-run's result; otherwise the
  speculative result is used unchanged.
\<close>

theorem search_reoptimizes_on_complete_profile_and_unavailable:
  assumes valid: "query \<noteq> [] \<and> category_id \<noteq> [] \<and> category_name \<noteq> []"
    and profile: "surveyData = (case userId of None \<Rightarrow> None
                                | Some u \<Rightarrow> if u = [] then None else surveys kv u)"
    and first: "optimizeSearchWithGemini cache (speculative env) query category_name None =
                  (optimization, cache1)"
  shows
   "(\<not> (\<exists>s. surveyData = Some s \<and> gender s \<noteq> [] \<and> budget s \<noteq> []) \<longrightarrow>
       search kv cache env query category_id category_name userId =
         searchWith cache1 env query category_id category_name surveyData optimization) \<and>
    ((\<exists>s. surveyData = Some s \<and> gender s \<noteq> [] \<and> budget s \<noteq> []) \<and>
     reasoningOf optimization = Some reason \<longrightarrow>
       search kv cache env query category_id category_name userId =
         (if str_includes reason ''unavailable''
          then (case optimizeSearchWithGemini cache1 (personalised env) query category_name
                       surveyData of
                  (reoptimized, cache2) \<Rightarrow>
                    searchWith cache2 env query category_id category_name surveyData reoptimized)
          else searchWith cache1 env query category_id category_name surveyData optimization)) \<and>
    (optimization = Optimization (createFallbackOptimization query) \<longrightarrow>
       (\<exists>text. reasoningOf optimization = Some text \<and> str_includes text ''unavailable''))"
proof -
  let ?complete = "\<exists>s. surveyData = Some s \<and> gender s \<noteq> [] \<and> budget s \<noteq> []"
  have g: "hasGenderAndBudget surveyData = ?complete"
    by (cases surveyData) (simp_all add: hasGenderAndBudget_def)
  have s: "search kv cache env query category_id category_name userId =
      (case finalOptimization cache env query category_name surveyData of
         (Inl e, c1) \<Rightarrow> (Json500 e, c1)
       | (Inr finalOpt, c1) \<Rightarrow>
           searchWith c1 env query category_id category_name surveyData finalOpt)"
    using valid unfolding profile by (simp add: search_def Let_def)
  have unchanged: "search kv cache env query category_id category_name userId =
         searchWith cache1 env query category_id category_name surveyData optimization"
    if "\<not> ?complete"
  proof -
    from that have "\<not> hasGenderAndBudget surveyData" unfolding g .
    then show ?thesis
      unfolding s by (simp add: finalOptimization_def first)
  qed
  have rerun: "search kv cache env query category_id category_name userId =
         (if str_includes reason ''unavailable''
          then (case optimizeSearchWithGemini cache1 (personalised env) query category_name
                       surveyData of
                  (reoptimized, cache2) \<Rightarrow>
                    searchWith cache2 env query category_id category_name surveyData reoptimized)
          else searchWith cache1 env query category_id category_name surveyData optimization)"
    if "?complete" and r: "reasoningOf optimization = Some reason"
  proof -
    from that(1) have "hasGenderAndBudget surveyData" unfolding g .
    then show ?thesis
      unfolding s by (simp add: finalOptimization_def first r split: prod.splits)
  qed
  have fb: "\<exists>text. reasoningOf optimization = Some text \<and> str_includes text ''unavailable''"
    if "optimization = Optimization (createFallbackOptimization query)"
    using that fallback_reasoning by simp
  show ?thesis
  proof (intro conjI impI)
    assume "\<not> ?complete"
    then show "search kv cache env query category_id category_name userId =
         searchWith cache1 env query category_id category_name surveyData optimization"
      by (rule unchanged)
  next
    assume "?complete \<and> reasoningOf optimization = Some reason"
    then show "search kv cache env query category_id category_name userId =
         (if str_includes reason ''unavailable''
          then (case optimizeSearchWithGemini cache1 (personalised env) query category_name
                       surveyData of
                  (reoptimized, cache2) \<Rightarrow>
                    searchWith cache2 env query category_id category_name surveyData reoptimized)
          else searchWith cache1 env query category_id category_name surveyData optimization)"
      using rerun by (elim conjE)
  next
    assume "optimization = Optimization (createFallbackOptimization query)"
    then show "\<exists>text. reasoningOf optimization = Some text \<and> str_includes text ''unavailable''"
      by (rule fb)
  qed
qed

text \<open>
  At two requests against a service whose first call times out and whose later calls
  answer or time out: the user whose profile has gender and budget gets the personalised
  optimization of the second call, and a request without a user keeps the fallback.
\<close>

theorem search_reoptimizes_on_complete_profile_and_unavailable_witness:
  "fst (search sampleStore Map.empty degraded ''wireless earbuds'' ''e1'' ''Electronics''
          (Some ''u1'')) =
     Json200 \<lparr> success = True, result_query = ''wireless earbuds'',
       optimized_query = Some ''earbuds for commuting'', result_category_id = ''e1'',
       result_category_name = ''Electronics'',
       result_products = defaultRanking ''Default ranking (error)'' [earbudsA, earbudsB],
       result_total_results = 2,
       optimization_reasoning = Some ''matched to the profile'' \<rparr> \<and>
   fst (search sampleStore Map.empty degraded ''wireless earbuds'' ''e1'' ''Electronics'' None) =
     Json200 \<lparr> success = True, result_query = ''wireless earbuds'',
       optimized_query = Some ''wireless earbuds'', result_category_id = ''e1'',
       result_category_name = ''Electronics'',
       result_products = defaultRanking ''Default ranking (error)'' [earbudsA, earbudsB],
       result_total_results = 2,
       optimization_reasoning = Some ''Direct search (AI optimization unavailable)'' \<rparr>"
proof -
  let ?q = "''wireless earbuds''"
  let ?r = "''Direct search (AI optimization unavailable)''"
  have valid: "?q \<noteq> [] \<and> ''e1'' \<noteq> [] \<and> ''Electronics'' \<noteq> []" by simp
  have profile: "Some commuter =
      (case Some ''u1'' of None \<Rightarrow> None | Some u \<Rightarrow> if u = [] then None else surveys sampleStore u)"
    by (simp add: sampleStore_def)
  have anonymous: "None =
      (case None of None \<Rightarrow> None | Some u \<Rightarrow> if u = [] then None else surveys sampleStore u)"
    by simp
  have first: "optimizeSearchWithGemini Map.empty (speculative degraded) ?q ''Electronics'' None =
      (Optimization (createFallbackOptimization ?q), Map.empty)"
    by (simp add: optimizeSearchWithGemini_def cacheLookup_def noCredential_def callGemini_def
        degraded_def timingOut_def)
  have complete: "(\<exists>s. Some commuter = Some s \<and> gender s \<noteq> [] \<and> budget s \<noteq> []) \<and>
      reasoningOf (Optimization (createFallbackOptimization ?q)) = Some ?r"
    by (simp add: commuter_def fallback_reasoning)
  have none: "\<not> (\<exists>s. (None :: survey option) = Some s \<and> gender s \<noteq> [] \<and> budget s \<noteq> [])"
    by simp
  have a: "search sampleStore Map.empty degraded ?q ''e1'' ''Electronics'' (Some ''u1'') =
      (if str_includes ?r ''unavailable''
       then (case optimizeSearchWithGemini Map.empty (personalised degraded) ?q ''Electronics''
                    (Some commuter) of
               (reoptimized, cache2) \<Rightarrow>
                 searchWith cache2 degraded ?q ''e1'' ''Electronics'' (Some commuter) reoptimized)
       else searchWith Map.empty degraded ?q ''e1'' ''Electronics'' (Some commuter)
              (Optimization (createFallbackOptimization ?q)))"
    by (rule search_reoptimizes_on_complete_profile_and_unavailable
          [OF valid profile first, THEN conjunct2, THEN conjunct1, THEN mp])
       (rule complete)
  have b: "search sampleStore Map.empty degraded ?q ''e1'' ''Electronics'' None =
      searchWith Map.empty degraded ?q ''e1'' ''Electronics'' None
        (Optimization (createFallbackOptimization ?q))"
    by (rule search_reoptimizes_on_complete_profile_and_unavailable
          [OF valid anonymous first, THEN conjunct1, THEN mp])
       (rule none)
  have a': "fst (search sampleStore Map.empty degraded ?q ''e1'' ''Electronics'' (Some ''u1'')) =
     Json200 \<lparr> success = True, result_query = ?q,
       optimized_query = Some ''earbuds for commuting'', result_category_id = ''e1'',
       result_category_name = ''Electronics'',
       result_products = defaultRanking ''Default ranking (error)'' [earbudsA, earbudsB],
       result_total_results = 2,
       optimization_reasoning = Some ''matched to the profile'' \<rparr>"
    unfolding a by (simp add: search_eval)
  have b': "fst (search sampleStore Map.empty degraded ?q ''e1'' ''Electronics'' None) =
     Json200 \<lparr> success = True, result_query = ?q,
       optimized_query = Some ?q, result_category_id = ''e1'',
       result_category_name = ''Electronics'',
       result_products = defaultRanking ''Default ranking (error)'' [earbudsA, earbudsB],
       result_total_results = 2,
       optimization_reasoning = Some ?r \<rparr>"
    unfolding b by (simp add: search_eval)
  from a' b' show ?thesis by (rule conjI)
qed

text \<open>
  The claim as written re-runs the optimizer for every profile that was found. Here a profile
  is stored for the user, without a gender, and the speculative call timed out and fell
  back; a re-run with the profile would have returned the personalised optimization, but
  the response carries the fallback.
\<close>

theorem search_keeps_fallback_for_profile_without_gender:
  "surveys sampleStore ''u2'' = Some resurveyed \<and>
   fst (optimizeSearchWithGemini Map.empty (speculative degraded) ''wireless earbuds''
          ''Electronics'' None) =
     Optimization (createFallbackOptimization ''wireless earbuds'') \<and>
   fst (optimizeSearchWithGemini Map.empty (personalised degraded) ''wireless earbuds''
          ''Electronics'' (Some resurveyed)) =
     Optimization \<lparr> optimized_search = Some ''earbuds for commuting'',
                      optimization.reasoning = Some ''matched to the profile'' \<rparr> \<and>
   fst (search sampleStore Map.empty degraded ''wireless earbuds'' ''e1'' ''Electronics''
          (Some ''u2'')) =
     Json200 \<lparr> success = True, result_query = ''wireless earbuds'',
       optimized_query = Some ''wireless earbuds'', result_category_id = ''e1'',
       result_category_name = ''Electronics'',
       result_products = defaultRanking ''Default ranking (error)'' [earbudsA, earbudsB],
       result_total_results = 2,
       optimization_reasoning = Some ''Direct search (AI optimization unavailable)'' \<rparr>"
  by (simp add: search_eval)



section \<open>The username index\<close>

text \<open>
  Run alone, the two handlers are these functions of the store and the request.
\<close>

lemma updateUser_alone:
  "updateUser kv userId body_name body_username =
     (if body_name = [] \<or> body_username = [] \<or> length (trim body_name) = 0 \<or>
         length (trim body_username) = 0
      then (UserError 400 ''Name and username are required'', kv)
      else
        (let clean = cleanUsername body_username;
             cleanName = trim body_name
         in case users kv userId of
              None \<Rightarrow> (UserError 404 ''User not found'', kv)
            | Some currentUser \<Rightarrow>
                (let updatedUser = currentUser \<lparr> name := cleanName, username := clean \<rparr> in
                 if clean \<noteq> username currentUser
                 then (case usernames kv clean of
                         Some existingUserId \<Rightarrow> (UserError 409 ''Username is already taken'', kv)
                       | None \<Rightarrow>
                           (let kv1 = kv \<lparr> usernames := (usernames kv)(username currentUser := None) \<rparr>;
                                kv2 = kv1 \<lparr> usernames := (usernames kv1)(clean \<mapsto> userId) \<rparr>;
                                kv3 = kv2 \<lparr> users := (users kv2)(userId \<mapsto> updatedUser) \<rparr>
                            in (UserOk 200 updatedUser, kv3)))
                 else (UserOk 200 updatedUser,
                       kv \<lparr> users := (users kv)(userId \<mapsto> updatedUser) \<rparr>))))"
  by (auto simp: updateUser_def Let_def split: option.splits)

lemma createUser_alone:
  "createUser kv userId createdAt body_name body_username =
     (if body_name = [] \<or> body_username = [] \<or> length (trim body_name) = 0 \<or>
         length (trim body_username) = 0
      then (UserError 400 ''Name and username are required'', kv)
      else
        (let clean = cleanUsername body_username;
             cleanName = trim body_name
         in case usernames kv clean of
              Some existingUserId \<Rightarrow> (UserError 409 ''Username is already taken'', kv)
            | None \<Rightarrow>
                (let userProfile = \<lparr> id = userId, name = cleanName, username = clean,
                                     created_at = createdAt \<rparr>;
                     kv1 = kv \<lparr> users := (users kv)(userId \<mapsto> userProfile) \<rparr>;
                     kv2 = kv1 \<lparr> usernames := (usernames kv1)(clean \<mapsto> userId) \<rparr>
                 in (UserOk 201 userProfile, kv2))))"
  by (auto simp: createUser_def Let_def split: option.splits)

lemma key_prefixes_disjoint:
  "''user:'' @ a \<noteq> ''username:'' @ b"
  "''user:'' @ a \<noteq> ''survey:'' @ b"
  "''username:'' @ a \<noteq> ''survey:'' @ b"
  by simp_all

lemma empty_store_consistent:
  "index_sound \<lparr> users = Map.empty, usernames = Map.empty, surveys = s \<rparr>"
  "index_complete \<lparr> users = Map.empty, usernames = Map.empty, surveys = s \<rparr>"
  by (simp_all add: index_sound_def index_complete_def)

lemma createUser_keeps_index:
  assumes "index_sound kv" and "index_complete kv" and fresh: "users kv userId = None"
  shows "index_sound (snd (createUser kv userId createdAt body_name body_username))"
    and "index_complete (snd (createUser kv userId createdAt body_name body_username))"
  using assms
  by (auto simp: createUser_alone Let_def index_sound_def index_complete_def split: option.splits)
    (metis option.distinct(1))+

lemma updateUser_keeps_index:
  assumes s: "index_sound kv" and c: "index_complete kv"
  shows "index_sound (snd (updateUser kv userId body_name body_username))"
    and "index_complete (snd (updateUser kv userId body_name body_username))"
proof -
  show "index_sound (snd (updateUser kv userId body_name body_username))"
    using s c unfolding updateUser_alone Let_def index_sound_def index_complete_def
    by (auto split: option.splits) (metis option.inject)+
  show "index_complete (snd (updateUser kv userId body_name body_username))"
    using s c unfolding updateUser_alone Let_def index_sound_def index_complete_def
    by (auto split: option.splits) (metis option.inject option.distinct(1))+
qed

lemma usernames_unique:
  assumes "index_complete kv" and "users kv a = Some ua" and "users kv b = Some ub"
    and "username ua = username ub"
  shows "a = b"
  using assms unfolding index_complete_def by (metis option.inject)

lemma updateUser_rejects_any_entry:
  assumes "\<not> blank body_name \<and> \<not> blank body_username"
    and "users kv userId = Some currentUser"
    and "cleanUsername body_username \<noteq> username currentUser"
    and "usernames kv (cleanUsername body_username) = Some existingUserId"
  shows "updateUser kv userId body_name body_username =
           (UserError 409 ''Username is already taken'', kv)"
  using assms by (auto simp: updateUser_alone Let_def blank_def)

text \<open>
  Claim C7, as the code has it. For a valid update of an existing user that changes the
  username, run with no other request's store operation between its own, in a store whose
  index agrees with its records: if the cleaned new username is indexed to a different
  user, the answer is 409 and the store is unchanged; otherwise the answer is 200, the old
  index entry is gone, the cleaned new username is indexed to this user and the record
  carries the new name and username. Afterwards the index still agrees with the records,
  so no two users share a username and every stored username has its index entry. The
  agreement holds for the empty store and is kept by every creation (with a fresh
  identifier) and every update that runs alone.
\<close>

theorem updateUser_changes_username_or_rejects:
  assumes sound: "index_sound kv" and complete: "index_complete kv"
    and valid: "\<not> blank body_name \<and> \<not> blank body_username"
    and user: "users kv userId = Some currentUser"
    and changed: "cleanUsername body_username \<noteq> username currentUser"
  shows
   "((\<exists>other. usernames kv (cleanUsername body_username) = Some other \<and> other \<noteq> userId) \<longrightarrow>
       updateUser kv userId body_name body_username =
         (UserError 409 ''Username is already taken'', kv)) \<and>
    (\<not> (\<exists>other. usernames kv (cleanUsername body_username) = Some other \<and> other \<noteq> userId) \<longrightarrow>
       updateUser kv userId body_name body_username =
         (UserOk 200 (currentUser \<lparr> name := trim body_name,
                                     username := cleanUsername body_username \<rparr>),
          kv \<lparr> usernames := ((usernames kv)(username currentUser := None))
                              (cleanUsername body_username \<mapsto> userId),
               users := (users kv)(userId \<mapsto>
                          currentUser \<lparr> name := trim body_name,
                                        username := cleanUsername body_username \<rparr>) \<rparr>)) \<and>
    index_sound (snd (updateUser kv userId body_name body_username)) \<and>
    index_complete (snd (updateUser kv userId body_name body_username)) \<and>
    (\<forall>a b ua ub.
       users (snd (updateUser kv userId body_name body_username)) a = Some ua \<and>
       users (snd (updateUser kv userId body_name body_username)) b = Some ub \<and>
       username ua = username ub \<longrightarrow> a = b)"
proof -
  let ?clean = "cleanUsername body_username"
  from valid have v: "body_name \<noteq> []" "body_username \<noteq> []" "trim body_name \<noteq> []"
      "trim body_username \<noteq> []"
    by (auto simp: blank_def)
  have taken: "updateUser kv userId body_name body_username =
      (UserError 409 ''Username is already taken'', kv)"
    if "usernames kv ?clean = Some other" for other
    using that v user changed by (simp add: updateUser_alone Let_def)
  have not_self: "usernames kv ?clean \<noteq> Some userId"
  proof
    assume "usernames kv ?clean = Some userId"
    with sound obtain u where "users kv userId = Some u" and "username u = ?clean"
      unfolding index_sound_def by blast
    with user changed show False by simp
  qed
  have free: "updateUser kv userId body_name body_username =
         (UserOk 200 (currentUser \<lparr> name := trim body_name, username := ?clean \<rparr>),
          kv \<lparr> usernames := ((usernames kv)(username currentUser := None))(?clean \<mapsto> userId),
               users := (users kv)(userId \<mapsto>
                          currentUser \<lparr> name := trim body_name, username := ?clean \<rparr>) \<rparr>)"
    if "\<not> (\<exists>other. usernames kv ?clean = Some other \<and> other \<noteq> userId)"
  proof -
    from that not_self have "usernames kv ?clean = None"
      by (cases "usernames kv ?clean") auto
    with v user changed show ?thesis
      by (simp add: updateUser_alone Let_def)
  qed
  have s': "index_sound (snd (updateUser kv userId body_name body_username))"
    using sound complete by (rule updateUser_keeps_index)
  have c': "index_complete (snd (updateUser kv userId body_name body_username))"
    using sound complete by (rule updateUser_keeps_index)
  have u': "a = b"
    if "users (snd (updateUser kv userId body_name body_username)) a = Some ua"
      and "users (snd (updateUser kv userId body_name body_username)) b = Some ub"
      and "username ua = username ub" for a b ua ub
    using c' that by (rule usernames_unique)
  from taken free s' c' u' show ?thesis by blast
qed

lemma cleaned_samples:
  "cleanUsername '' Bob '' = ''bob''" "cleanUsername ''Grace'' = ''grace''"
  "\<not> blank ''Ada L.''" "\<not> blank '' Bob ''" "\<not> blank ''Grace''" "trim ''Ada L.'' = ''Ada L.''"
  by code_simp+

lemma twoUsers_consistent: "index_sound twoUsers" "index_complete twoUsers"
  by (auto simp: index_sound_def index_complete_def twoUsers_def split: if_splits)

theorem updateUser_changes_username_or_rejects_witness:
  "updateUser twoUsers ''u1'' ''Ada L.'' '' Bob '' = (UserError 409 ''Username is already taken'', twoUsers) \<and>
   updateUser twoUsers ''u1'' ''Ada L.'' ''Grace'' =
     (UserOk 200 \<lparr> id = ''u1'', name = ''Ada L.'', username = ''grace'', created_at = ''2024'' \<rparr>,
      \<lparr> users = [''u1'' \<mapsto> \<lparr> id = ''u1'', name = ''Ada L.'', username = ''grace'', created_at = ''2024'' \<rparr>,
                  ''u2'' \<mapsto> \<lparr> id = ''u2'', name = ''Bob'', username = ''bob'', created_at = ''2024'' \<rparr>],
        usernames = [''bob'' \<mapsto> ''u2'', ''grace'' \<mapsto> ''u1''],
        surveys = Map.empty \<rparr>)"
proof -
  let ?ada = "\<lparr> id = ''u1'', name = ''Ada'', username = ''ada'', created_at = ''2024'' \<rparr>"
  have user: "users twoUsers ''u1'' = Some ?ada"
    by (simp add: twoUsers_def)
  have valid1: "\<not> blank ''Ada L.'' \<and> \<not> blank '' Bob ''" and valid2: "\<not> blank ''Ada L.'' \<and> \<not> blank ''Grace''"
    by (simp_all add: cleaned_samples)
  have ch1: "cleanUsername '' Bob '' \<noteq> username ?ada" and ch2: "cleanUsername ''Grace'' \<noteq> username ?ada"
    by (simp_all add: cleaned_samples)
  have taken: "\<exists>other. usernames twoUsers (cleanUsername '' Bob '') = Some other \<and> other \<noteq> ''u1''"
    by (simp add: cleaned_samples twoUsers_def)
  have free: "\<not> (\<exists>other. usernames twoUsers (cleanUsername ''Grace'') = Some other \<and> other \<noteq> ''u1'')"
    by (simp add: cleaned_samples twoUsers_def)
  have a: "updateUser twoUsers ''u1'' ''Ada L.'' '' Bob '' =
      (UserError 409 ''Username is already taken'', twoUsers)"
    by (rule updateUser_changes_username_or_rejects
          [OF twoUsers_consistent valid1 user ch1, THEN conjunct1, THEN mp]) (rule taken)
  have "updateUser twoUsers ''u1'' ''Ada L.'' ''Grace'' =
      (UserOk 200 (?ada \<lparr> name := trim ''Ada L.'', username := cleanUsername ''Grace'' \<rparr>),
       twoUsers \<lparr> usernames := ((usernames twoUsers)(username ?ada := None))
                              (cleanUsername ''Grace'' \<mapsto> ''u1''),
               users := (users twoUsers)(''u1'' \<mapsto>
                          ?ada \<lparr> name := trim ''Ada L.'', username := cleanUsername ''Grace'' \<rparr>) \<rparr>)"
    by (rule updateUser_changes_username_or_rejects
          [OF twoUsers_consistent valid2 user ch2, THEN conjunct2, THEN conjunct1, THEN mp]) (rule free)
  also have "\<dots> = (UserOk 200 \<lparr> id = ''u1'', name = ''Ada L.'', username = ''grace'', created_at = ''2024'' \<rparr>,
      \<lparr> users = [''u1'' \<mapsto> \<lparr> id = ''u1'', name = ''Ada L.'', username = ''grace'', created_at = ''2024'' \<rparr>,
                  ''u2'' \<mapsto> \<lparr> id = ''u2'', name = ''Bob'', username = ''bob'', created_at = ''2024'' \<rparr>],
        usernames = [''bob'' \<mapsto> ''u2'', ''grace'' \<mapsto> ''u1''],
        surveys = Map.empty \<rparr>)"
    by (auto simp add: cleaned_samples twoUsers_def fun_eq_iff)
  finally show ?thesis using a by blast
qed



lemma cleaned_carol: "cleanUsername ''carol'' = ''carol''" "trim ''Ada'' = ''Ada''" "trim ''Bob'' = ''Bob''"
  "trim ''carol'' = ''carol''"
  by code_simp+

text \<open>
  The claim as written holds for every update. The handler checks the index and writes it in
  separate store operations, and nothing keeps another request out in between. Here two
  users change their usernames to the same free name at the same time: both requests read
  their record, both find the name free, then each deletes its old entry, sets the new one
  and writes its record. Both are answered 200, both records carry the name, and the index
  entry points to the second user only.
\<close>

theorem interleaved_updates_share_a_username:
  "interleave twoUsers (PutReceived ''u1'' ''Ada'' ''carol'') (PutReceived ''u2'' ''Bob'' ''carol'')
     [First, Second, First, Second, First, First, First, Second, Second, Second] =
     (Answered (UserOk 200 \<lparr> id = ''u1'', name = ''Ada'', username = ''carol'', created_at = ''2024'' \<rparr>),
      Answered (UserOk 200 \<lparr> id = ''u2'', name = ''Bob'', username = ''carol'', created_at = ''2024'' \<rparr>),
      \<lparr> users = [''u1'' \<mapsto> \<lparr> id = ''u1'', name = ''Ada'', username = ''carol'', created_at = ''2024'' \<rparr>,
                  ''u2'' \<mapsto> \<lparr> id = ''u2'', name = ''Bob'', username = ''carol'', created_at = ''2024'' \<rparr>],
        usernames = [''carol'' \<mapsto> ''u2''],
        surveys = Map.empty \<rparr>) \<and>
   \<not> index_complete
       \<lparr> users = [''u1'' \<mapsto> \<lparr> id = ''u1'', name = ''Ada'', username = ''carol'', created_at = ''2024'' \<rparr>,
                   ''u2'' \<mapsto> \<lparr> id = ''u2'', name = ''Bob'', username = ''carol'', created_at = ''2024'' \<rparr>],
         usernames = [''carol'' \<mapsto> ''u2''],
         surveys = Map.empty \<rparr>"
proof -
  let ?store = "\<lparr> users = [''u1'' \<mapsto> \<lparr> id = ''u1'', name = ''Ada'', username = ''carol'', created_at = ''2024'' \<rparr>,
                   ''u2'' \<mapsto> \<lparr> id = ''u2'', name = ''Bob'', username = ''carol'', created_at = ''2024'' \<rparr>],
         usernames = [''carol'' \<mapsto> ''u2''],
         surveys = Map.empty \<rparr>"
  have run: "interleave twoUsers (PutReceived ''u1'' ''Ada'' ''carol'') (PutReceived ''u2'' ''Bob'' ''carol'')
     [First, Second, First, Second, First, First, First, Second, Second, Second] =
     (Answered (UserOk 200 \<lparr> id = ''u1'', name = ''Ada'', username = ''carol'', created_at = ''2024'' \<rparr>),
      Answered (UserOk 200 \<lparr> id = ''u2'', name = ''Bob'', username = ''carol'', created_at = ''2024'' \<rparr>),
      ?store)"
    by (simp add: twoUsers_def cleaned_carol Let_def fun_upd_twist fun_eq_iff)
  have "users ?store ''u1'' =
      Some \<lparr> id = ''u1'', name = ''Ada'', username = ''carol'', created_at = ''2024'' \<rparr>"
    by simp
  moreover have "usernames ?store ''carol'' \<noteq> Some ''u1''" by simp
  ultimately have "\<not> index_complete ?store"
    unfolding index_complete_def by (metis user_profile.select_convs(3))
  with run show ?thesis by blast
qed

section \<open>Listings: filtered after the cut to 25\<close>

lemma enumerate_take: "enumerate n (take k xs) = take k (enumerate n xs)"
  by (induction xs arbitrary: n k) (auto simp: take_Cons split: nat.splits)

lemma processProducts_length_le: "length (processProducts rs) \<le> 25"
proof -
  let ?xs = "case rs of None \<Rightarrow> [] | Some xs \<Rightarrow> xs"
  have "length (processProducts rs) \<le> length (map normalizeProduct (enumerate 0 (take 25 ?xs)))"
    unfolding processProducts_def by (rule length_filter_le)
  also have "\<dots> \<le> 25" by simp
  finally show ?thesis .
qed

lemma processProducts_positive: "list_all (\<lambda>p. positive (price p)) (processProducts rs)"
  by (simp add: processProducts_def list_all_iff)

lemma price_truncate: "price (product.truncate rp) = price rp"
  by (simp add: product.truncate_def)

text \<open>
  A 200 response carries what the ranker returned for the processed listings of the
  catalog's answer.
\<close>

lemma search_200_products:
  assumes "search kv cache env query category_id category_name userId = (Json200 res, cache')"
  shows "\<exists>searchTerm results cache1 surveyData.
           catalog env searchTerm category_id = Inr results \<and>
           fst (rankProductsWithGemini cache1 (ranker_call env) query
                  (processProducts (search_results results)) surveyData) =
             Inr (result_products res)"
proof -
  from assms obtain surveyData finalOpt cache1 where
    sw: "searchWith cache1 env query category_id category_name surveyData finalOpt =
           (Json200 res, cache')"
    by (auto simp: search_def Let_def split: if_splits prod.splits sum.splits)
  let ?t = "case optimizedSearchOf finalOpt of None \<Rightarrow> ''undefined'' | Some s \<Rightarrow> s"
  from sw obtain results where c: "catalog env ?t category_id = Inr results"
    by (cases "catalog env ?t category_id") (auto simp: searchWith_def)
  with sw have "fst (rankProductsWithGemini cache1 (ranker_call env) query
                  (processProducts (search_results results)) surveyData) =
             Inr (result_products res)"
    by (auto simp: searchWith_def Let_def split: prod.splits sum.splits)
  with c show ?thesis by blast
qed

text \<open>
  Claim C3, as the code has it. The handler cuts the catalog's list to its first 25 listings
  and only then normalises and filters: the products handed to the ranker are the
  normalised listings, among the first 25 of the catalog's list, whose price is greater than
  0, in the catalog's order. Hence every one of them has a price greater than 0 and there are
  at most 25; and the products of a 200 response are these products, each once, so they too
  have a price greater than 0 and number at most 25.
\<close>

theorem processProducts_filters_the_first_25:
  "processProducts rs =
     filter (\<lambda>p. positive (price p))
       (take 25 (map normalizeProduct (enumerate 0 (case rs of None \<Rightarrow> [] | Some xs \<Rightarrow> xs)))) \<and>
   list_all (\<lambda>p. positive (price p)) (processProducts rs) \<and>
   length (processProducts rs) \<le> 25 \<and>
   (search kv cache env query category_id category_name userId = (Json200 res, cache') \<longrightarrow>
      (\<exists>searchTerm results.
         catalog env searchTerm category_id = Inr results \<and>
         mset (map product.truncate (result_products res)) =
           mset (processProducts (search_results results))) \<and>
      list_all (\<lambda>rp. positive (price rp)) (result_products res) \<and>
      length (result_products res) \<le> 25)"
proof -
  have a: "processProducts rs =
     filter (\<lambda>p. positive (price p))
       (take 25 (map normalizeProduct (enumerate 0 (case rs of None \<Rightarrow> [] | Some xs \<Rightarrow> xs))))"
    by (simp add: processProducts_def enumerate_take take_map)
  have b: "(\<exists>searchTerm results.
         catalog env searchTerm category_id = Inr results \<and>
         mset (map product.truncate (result_products res)) =
           mset (processProducts (search_results results))) \<and>
      list_all (\<lambda>rp. positive (price rp)) (result_products res) \<and>
      length (result_products res) \<le> 25"
    if ok: "search kv cache env query category_id category_name userId = (Json200 res, cache')"
  proof -
    from search_200_products [OF ok] obtain searchTerm results cache1 surveyData where
      c: "catalog env searchTerm category_id = Inr results" and
      r: "fst (rankProductsWithGemini cache1 (ranker_call env) query
                  (processProducts (search_results results)) surveyData) =
             Inr (result_products res)"
      by blast
    let ?ps = "processProducts (search_results results)"
    from ranker_returns_same_products [OF r]
    have len: "length (result_products res) = length ?ps"
      and m: "mset (map product.truncate (result_products res)) = mset ?ps"
      by simp_all
    from m have "set (map product.truncate (result_products res)) = set ?ps"
      by (rule mset_eq_setD)
    moreover have "\<forall>p \<in> set ?ps. positive (price p)"
      using processProducts_positive [of "search_results results"] by (simp add: list_all_iff)
    ultimately have "\<forall>rp \<in> set (result_products res). positive (price (product.truncate rp))"
      by auto
    then have "list_all (\<lambda>rp. positive (price rp)) (result_products res)"
      by (simp add: list_all_iff price_truncate)
    moreover from len processProducts_length_le [of "search_results results"]
    have "length (result_products res) \<le> 25" by simp
    ultimately show ?thesis using c m by blast
  qed
  from a b processProducts_positive [of rs] processProducts_length_le [of rs]
  show ?thesis by blast
qed

text \<open>
  The documented scenario: the catalog returns three listings priced 19.99, 0 and 45.00;
  the response holds the two with a price, ranked 1 and 2.
\<close>

theorem processProducts_filters_the_first_25_witness:
  "search sampleStore Map.empty degraded ''wireless earbuds'' ''e1'' ''Electronics'' None =
     (Json200 \<lparr> success = True, result_query = ''wireless earbuds'',
        optimized_query = Some ''wireless earbuds'', result_category_id = ''e1'',
        result_category_name = ''Electronics'',
        result_products =
          [product.extend earbudsA (ranked_product.fields 1 ''Default ranking (error)''),
           product.extend earbudsB (ranked_product.fields 2 ''Default ranking (error)'')],
        result_total_results = 2,
        optimization_reasoning = Some ''Direct search (AI optimization unavailable)'' \<rparr>,
      Map.empty) \<and>
   list_all (\<lambda>rp. positive (price rp))
     [product.extend earbudsA (ranked_product.fields 1 ''Default ranking (error)''),
      product.extend earbudsB (ranked_product.fields 2 ''Default ranking (error)'')] \<and>
   length
     [product.extend earbudsA (ranked_product.fields 1 ''Default ranking (error)''),
      product.extend earbudsB (ranked_product.fields 2 ''Default ranking (error)'')] \<le> 25"
proof -
  let ?out = "[product.extend earbudsA (ranked_product.fields 1 ''Default ranking (error)''),
      product.extend earbudsB (ranked_product.fields 2 ''Default ranking (error)'')]"
  let ?res = "\<lparr> success = True, result_query = ''wireless earbuds'',
        optimized_query = Some ''wireless earbuds'', result_category_id = ''e1'',
        result_category_name = ''Electronics'', result_products = ?out,
        result_total_results = 2,
        optimization_reasoning = Some ''Direct search (AI optimization unavailable)'' \<rparr>"
  have run: "search sampleStore Map.empty degraded ''wireless earbuds'' ''e1'' ''Electronics'' None =
      (Json200 ?res, Map.empty)"
    by (simp add: search_eval defaultRanking_def)
  from processProducts_filters_the_first_25
    [where kv = sampleStore and cache = Map.empty and env = degraded
       and query = "''wireless earbuds''" and category_id = "''e1''"
       and category_name = "''Electronics''" and userId = None and res = ?res
       and cache' = Map.empty] run
  have "list_all (\<lambda>rp. positive (price rp)) (result_products ?res) \<and>
      length (result_products ?res) \<le> 25"
    by blast
  with run show ?thesis by simp
qed

text \<open>
  The claim as written takes the first 25 of the listings that survive the filter. With 26
  listings of which the first has no price, the code returns 24 products; the first 25
  survivors would be 25.
\<close>

theorem processProducts_not_first_25_survivors:
  "processProducts
     (Some (\<lparr> asin = None, raw_title = None, raw_price = PNull, raw_image = None, link = None \<rparr>
        # replicate 25
           \<lparr> asin = Some ''B01'', raw_title = Some ''Kettle'', raw_price = PNum 5,
             raw_image = None, link = None \<rparr>))
   \<noteq> take 25
       (filter (\<lambda>p. positive (price p))
          (map normalizeProduct
             (enumerate 0
                (\<lparr> asin = None, raw_title = None, raw_price = PNull, raw_image = None, link = None \<rparr>
                  # replicate 25
                      \<lparr> asin = Some ''B01'', raw_title = Some ''Kettle'', raw_price = PNum 5,
                        raw_image = None, link = None \<rparr>))))"
proof -
  let ?bad = "\<lparr> asin = None, raw_title = None, raw_price = PNull, raw_image = None, link = None \<rparr>"
  let ?good = "\<lparr> asin = Some ''B01'', raw_title = Some ''Kettle'', raw_price = PNum 5,
                 raw_image = None, link = None \<rparr>"
  have "length (processProducts (Some (?bad # replicate 25 ?good))) = 24"
    by code_simp
  moreover have "length (take 25 (filter (\<lambda>p. positive (price p))
          (map normalizeProduct (enumerate 0 (?bad # replicate 25 ?good))))) = 25"
    by code_simp
  ultimately show ?thesis by auto
qed


end
